theory Spec2Isabelle
  imports Main
begin

section \<open>JavaScript strings and characters\<close>

text \<open>
  A JavaScript string is modelled as a \<open>string\<close> whose characters are UTF-16 code units
  below 256 (ASCII and the Latin-1 supplement). Within that range the white space of
  \<open>\s\<close> and of \<open>trim\<close> is TAB, LF, VT, FF, CR, SPACE and NBSP, the line terminators that
  \<open>.\<close> refuses are LF and CR, and \<open>toLowerCase\<close> maps A-Z and the Latin-1 capitals to
  their small letters.
\<close>

definition is_space :: "char \<Rightarrow> bool" where
  "is_space c = (c \<in> set [CHR 0x09, CHR 0x0A, CHR 0x0B, CHR 0x0C, CHR 0x0D, CHR 0x20, CHR 0xA0])"

definition is_line_terminator :: "char \<Rightarrow> bool" where
  "is_line_terminator c = (c \<in> set [CHR 0x0A, CHR 0x0D])"

definition is_digit :: "char \<Rightarrow> bool" where
  "is_digit c = (c \<in> set ''0123456789'')"

definition upper_chars :: string where
  "upper_chars = ''ABCDEFGHIJKLMNOPQRSTUVWXYZ'' @
     [CHR 0xC0, CHR 0xC1, CHR 0xC2, CHR 0xC3, CHR 0xC4, CHR 0xC5, CHR 0xC6, CHR 0xC7,
      CHR 0xC8, CHR 0xC9, CHR 0xCA, CHR 0xCB, CHR 0xCC, CHR 0xCD, CHR 0xCE, CHR 0xCF,
      CHR 0xD0, CHR 0xD1, CHR 0xD2, CHR 0xD3, CHR 0xD4, CHR 0xD5, CHR 0xD6,
      CHR 0xD8, CHR 0xD9, CHR 0xDA, CHR 0xDB, CHR 0xDC, CHR 0xDD, CHR 0xDE]"

definition lower_chars :: string where
  "lower_chars = ''abcdefghijklmnopqrstuvwxyz'' @
     [CHR 0xE0, CHR 0xE1, CHR 0xE2, CHR 0xE3, CHR 0xE4, CHR 0xE5, CHR 0xE6, CHR 0xE7,
      CHR 0xE8, CHR 0xE9, CHR 0xEA, CHR 0xEB, CHR 0xEC, CHR 0xED, CHR 0xEE, CHR 0xEF,
      CHR 0xF0, CHR 0xF1, CHR 0xF2, CHR 0xF3, CHR 0xF4, CHR 0xF5, CHR 0xF6,
      CHR 0xF8, CHR 0xF9, CHR 0xFA, CHR 0xFB, CHR 0xFC, CHR 0xFD, CHR 0xFE]"

definition toLowerChar :: "char \<Rightarrow> char" where
  "toLowerChar c = (case map_of (zip upper_chars lower_chars) c of Some l \<Rightarrow> l | None \<Rightarrow> c)"

definition toLowerCase :: "string \<Rightarrow> string" where
  "toLowerCase s = map toLowerChar s"

text \<open>\<open>String.prototype.trim\<close>: white space and line terminators go from both ends.\<close>

definition trim :: "string \<Rightarrow> string" where
  "trim s = rev (dropWhile is_space (rev (dropWhile is_space s)))"

text \<open>\<open>s.replace(':', '')\<close>: a string pattern replaces its first occurrence only.\<close>

definition remove_first :: "char \<Rightarrow> string \<Rightarrow> string" where
  "remove_first c s = takeWhile (\<lambda>x. x \<noteq> c) s @ drop 1 (dropWhile (\<lambda>x. x \<noteq> c) s)"

definition NL :: string where
  "NL = [CHR 0x0A]"

fun join_lines :: "string list \<Rightarrow> string" where
  "join_lines [] = []"
| "join_lines [l] = l"
| "join_lines (l # ls) = l @ NL @ join_lines ls"

subsection \<open>Numbers in text\<close>

text \<open>
  A year is an \<open>int option\<close>: \<open>None\<close> is \<open>null\<close>, and also \<open>NaN\<close>, which the one place
  that reads a fetched year (\<open>pub.year || 'N/A'\<close>) treats as it treats \<open>null\<close>.
  \<open>show_int\<close> is the text a template literal gives an integer; \<open>parseInt\<close> reads the
  leading decimal digits, and its argument here is always a match of \<open>\d+\<close>, so sign,
  leading white space and a hexadecimal prefix do not arise. Both are exact for the
  integers a JavaScript number holds exactly, those of magnitude below \<open>2^53\<close>.
\<close>

definition digit_char :: "nat \<Rightarrow> char" where
  "digit_char d = ''0123456789'' ! (d mod 10)"

definition digit_val :: "char \<Rightarrow> nat" where
  "digit_val c = (case map_of (zip ''0123456789'' [0 ..< 10]) c of Some d \<Rightarrow> d | None \<Rightarrow> 0)"

fun show_nat :: "nat \<Rightarrow> string" where
  "show_nat n = (if n < 10 then [digit_char n] else show_nat (n div 10) @ [digit_char n])"

declare show_nat.simps [simp del]

definition show_int :: "int \<Rightarrow> string" where
  "show_int i = (if i < 0 then CHR ''-'' # show_nat (nat (- i)) else show_nat (nat i))"

definition parseInt :: "string \<Rightarrow> int option" where
  "parseInt s =
     (let ds = takeWhile is_digit s
      in if ds = [] then None
         else Some (int (foldl (\<lambda>acc c. acc * 10 + digit_val c) 0 ds)))"

section \<open>Regular expressions\<close>

text \<open>
  The patterns of both scripts are built from single characters, the classes \<open>\s\<close>,
  \<open>\S\<close>, \<open>\d\<close> and \<open>.\<close>, greedy \<open>*\<close> and \<open>+\<close> on a class, alternation, sequence and
  capture groups. \<open>run\<close> is the backtracking matcher of \<open>RegExp\<close>: it matches a stack of
  pending pattern items against the input, a greedy quantifier tries the longer match
  first and gives characters back when the rest of the pattern fails, an alternation
  tries its left branch first. \<open>Close s0\<close> ends a group opened at input \<open>s0\<close> and records
  the text the group consumed. The result is the list of captures in group order.
\<close>

datatype cclass = Lit char | LitI char | Space | NonSpace | Digit | Dot

fun in_class :: "cclass \<Rightarrow> char \<Rightarrow> bool" where
  "in_class (Lit p) c = (c = p)"
| "in_class (LitI p) c = (toLowerChar c = toLowerChar p)"
| "in_class Space c = is_space c"
| "in_class NonSpace c = (\<not> is_space c)"
| "in_class Digit c = is_digit c"
| "in_class Dot c = (\<not> is_line_terminator c)"

datatype regex = Eps | Cls cclass | Star cclass | Plus cclass
  | Seq regex regex | Alt regex regex | Grp regex

datatype item = R regex | Close string

fun rweight :: "regex \<Rightarrow> nat" where
  "rweight Eps = 1"
| "rweight (Cls c) = 1"
| "rweight (Star c) = 1"
| "rweight (Plus c) = 2"
| "rweight (Seq a b) = Suc (rweight a + rweight b)"
| "rweight (Alt a b) = Suc (rweight a + rweight b)"
| "rweight (Grp r) = Suc (Suc (rweight r))"

fun iweight :: "item \<Rightarrow> nat" where
  "iweight (R r) = rweight r"
| "iweight (Close s) = 1"

function run :: "item list \<Rightarrow> string \<Rightarrow> string list \<Rightarrow> string list option" where
  "run [] s caps = Some caps"
| "run (Close s0 # k) s caps = run k s (caps @ [take (length s0 - length s) s0])"
| "run (R Eps # k) s caps = run k s caps"
| "run (R (Cls c) # k) [] caps = None"
| "run (R (Cls c) # k) (x # xs) caps = (if in_class c x then run k xs caps else None)"
| "run (R (Seq a b) # k) s caps = run (R a # R b # k) s caps"
| "run (R (Alt a b) # k) s caps =
     (case run (R a # k) s caps of Some r \<Rightarrow> Some r | None \<Rightarrow> run (R b # k) s caps)"
| "run (R (Grp r) # k) s caps = run (R r # Close s # k) s caps"
| "run (R (Star c) # k) [] caps = run k [] caps"
| "run (R (Star c) # k) (x # xs) caps =
     (if in_class c x
      then (case run (R (Star c) # k) xs caps of
              Some r \<Rightarrow> Some r
            | None \<Rightarrow> run k (x # xs) caps)
      else run k (x # xs) caps)"
| "run (R (Plus c) # k) [] caps = None"
| "run (R (Plus c) # k) (x # xs) caps =
     (if in_class c x then run (R (Star c) # k) xs caps else None)"
  by pat_completeness auto
termination
  by (relation "measures [\<lambda>(k, s, caps). length s, \<lambda>(k, s, caps). sum_list (map iweight k)]")
     auto

text \<open>
  \<open>str.match(re)\<close> without the \<open>g\<close> flag: the match at the leftmost start position,
  \<open>None\<close> for \<open>null\<close>.
\<close>

fun search :: "regex \<Rightarrow> string \<Rightarrow> string list option" where
  "search r [] = run [R r] [] []"
| "search r (c # cs) =
     (case run [R r] (c # cs) [] of Some caps \<Rightarrow> Some caps | None \<Rightarrow> search r cs)"

fun lit :: "string \<Rightarrow> regex" where
  "lit [] = Eps"
| "lit (c # cs) = Seq (Cls (Lit c)) (lit cs)"

text \<open>
  A literal under the \<open>i\<close> flag. \<open>RegExp\<close> compares the upper-case forms of the two
  code units, and never lets a code unit from 128 on match an ASCII one; for the ASCII
  characters of the patterns here that is equality of the lower-case forms.
\<close>

fun lit_i :: "string \<Rightarrow> regex" where
  "lit_i [] = Eps"
| "lit_i (c # cs) = Seq (Cls (LitI c)) (lit_i cs)"

section \<open>Data model\<close>

datatype source = Orcid | Pubmed

text \<open>
  The bibliographic fields every publication object carries. \<open>None\<close> in \<open>doi\<close> and \<open>pmid\<close>
  is \<open>null\<close>; \<open>None\<close> in \<open>authors\<close> is the field ORCID records do not have.
  \<open>fetched\<close> is a record as the two fetchers build it, \<open>curated\<close> an entry of the
  publications file, \<open>dataset\<close> the content of that file. The file is taken to follow
  its schema: the three lists are there and every entry has a title.
\<close>

record bibfields =
  title :: string
  authors :: "string option"
  journal :: string
  year :: "int option"
  doi :: "string option"
  pmid :: "string option"

record fetched = bibfields +
  source :: source

record curated = bibfields +
  id' :: string
  links :: "(string \<times> string) list"

record dataset =
  approved :: "curated list"
  pending :: "curated list"
  rejected :: "curated list"
  lastUpdated :: string

datatype action = Approve | Reject

record command =
  action :: action
  idType :: string
  idValue :: string

text \<open>Truthiness of a string-or-null value: \<open>null\<close> and the empty string are falsy.\<close>

fun truthy :: "string option \<Rightarrow> bool" where
  "truthy None = False"
| "truthy (Some s) = (s \<noteq> [])"

text \<open>A string-or-null value inside a template literal: \<open>null\<close> prints as \<open>null\<close>.\<close>

fun template_text :: "string option \<Rightarrow> string" where
  "template_text None = ''null''"
| "template_text (Some s) = s"

section \<open>The fetch script\<close>

definition alnum_lower :: "char \<Rightarrow> bool" where
  "alnum_lower c = (c \<in> set ''abcdefghijklmnopqrstuvwxyz0123456789'')"

definition normalizeTitle :: "string \<Rightarrow> string" where
  "normalizeTitle t = trim (filter alnum_lower (toLowerCase t))"

text \<open>The loop of \<open>publicationExists\<close> over \<open>allExisting\<close>.\<close>

fun exists_loop :: "('a bibfields_scheme) \<Rightarrow> ('b bibfields_scheme) list \<Rightarrow> bool" where
  "exists_loop pub [] = False"
| "exists_loop pub (existing # rest) =
     (if truthy (doi pub) \<and> truthy (doi existing) \<and> doi pub = doi existing then True
      else if truthy (pmid pub) \<and> truthy (pmid existing) \<and> pmid pub = pmid existing then True
      else if normalizeTitle (title pub) = normalizeTitle (title existing) then True
      else exists_loop pub rest)"

definition publicationExists :: "fetched \<Rightarrow> dataset \<Rightarrow> bool" where
  "publicationExists pub existingData =
     exists_loop pub (approved existingData @ pending existingData @ rejected existingData)"

definition generateIssueBody :: "fetched \<Rightarrow> string" where
  "generateIssueBody pub =
     (let doiLine = (if truthy (doi pub) then ''**DOI:** '' @ template_text (doi pub) else '''');
          pmidLine = (if truthy (pmid pub) then ''**PMID:** '' @ template_text (pmid pub) else '''');
          ident = (if truthy (doi pub) then ''doi:'' @ template_text (doi pub)
                   else ''pmid:'' @ template_text (pmid pub))
      in trim (join_lines
        ['''',
         ''## New Publication Detected'',
         '''',
         ''**Title:** '' @ title pub,
         '''',
         ''**Authors:** '' @ (if truthy (authors pub) then template_text (authors pub) else ''N/A''),
         '''',
         ''**Journal:** '' @ (if journal pub \<noteq> [] then journal pub else ''N/A''),
         '''',
         ''**Year:** '' @ (case year pub of None \<Rightarrow> ''N/A''
                            | Some y \<Rightarrow> if y = 0 then ''N/A'' else show_int y),
         '''',
         doiLine,
         pmidLine,
         '''',
         ''**Source:** '' @ (case source pub of Orcid \<Rightarrow> ''orcid'' | Pubmed \<Rightarrow> ''pubmed''),
         '''',
         ''---'',
         '''',
         ''### Actions'',
         '''',
         ''To approve this publication and add it to the website, comment:'',
         ''```'',
         ''/approve '' @ ident,
         ''```'',
         '''',
         ''To reject this publication (won'' @ [CHR 0x27] @ ''t be asked again), comment:'',
         ''```'',
         ''/reject '' @ ident,
         ''```'',
         '''']))"

text \<open>
  The deduplication loop of \<open>main\<close> in the fetch script: \<open>seen\<close> is the \<open>Set\<close> of keys,
  \<open>uniquePubs\<close> the array being filled. \<open>uniquePubs\<close> and \<open>newPublications\<close> below
  are the arrays of these names that \<open>main\<close> computes from the two fetched lists and the
  loaded dataset.
\<close>

definition dedup_key :: "fetched \<Rightarrow> string" where
  "dedup_key pub =
     (if truthy (doi pub) then template_text (doi pub)
      else if truthy (pmid pub) then template_text (pmid pub)
      else normalizeTitle (title pub))"

fun dedup_loop :: "fetched list \<Rightarrow> string set \<Rightarrow> fetched list \<Rightarrow> fetched list" where
  "dedup_loop [] seen uniquePubs = uniquePubs"
| "dedup_loop (pub # rest) seen uniquePubs =
     (let key = dedup_key pub
      in if key \<notin> seen then dedup_loop rest (insert key seen) (uniquePubs @ [pub])
         else dedup_loop rest seen uniquePubs)"

definition uniquePubs :: "fetched list \<Rightarrow> fetched list \<Rightarrow> fetched list" where
  "uniquePubs orcidPubs pubmedPubs = dedup_loop (orcidPubs @ pubmedPubs) {} []"

definition newPublications :: "fetched list \<Rightarrow> fetched list \<Rightarrow> dataset \<Rightarrow> fetched list" where
  "newPublications orcidPubs pubmedPubs existingData =
     filter (\<lambda>pub. \<not> publicationExists pub existingData) (uniquePubs orcidPubs pubmedPubs)"

section \<open>The decision script\<close>

definition approve_re :: regex where
  "approve_re = Seq (lit_i ''/approve'') (Seq (Plus Space)
     (Seq (Grp (Alt (lit_i ''doi:'') (lit_i ''pmid:''))) (Grp (Plus NonSpace))))"

definition reject_re :: regex where
  "reject_re = Seq (lit_i ''/reject'') (Seq (Plus Space)
     (Seq (Grp (Alt (lit_i ''doi:'') (lit_i ''pmid:''))) (Grp (Plus NonSpace))))"

definition parseCommand :: "string \<Rightarrow> command option" where
  "parseCommand comment =
     (let approveMatch = search approve_re comment;
          rejectMatch = search reject_re comment
      in case approveMatch of
           Some g \<Rightarrow> Some \<lparr>action = Approve, idType = remove_first (CHR '':'') (g ! 0),
                           idValue = g ! 1\<rparr>
         | None \<Rightarrow>
          (case rejectMatch of
             Some g \<Rightarrow> Some \<lparr>action = Reject, idType = remove_first (CHR '':'') (g ! 0),
                             idValue = g ! 1\<rparr>
           | None \<Rightarrow> None))"

definition text_field_re :: "string \<Rightarrow> regex" where
  "text_field_re label = Seq (lit label) (Seq (Star Space) (Grp (Plus Dot)))"

definition year_re :: regex where
  "year_re = Seq (lit ''**Year:**'') (Seq (Star Space) (Grp (Plus Digit)))"

definition token_field_re :: "string \<Rightarrow> regex" where
  "token_field_re label = Seq (lit label) (Seq (Star Space) (Grp (Plus NonSpace)))"

definition parseIssueBody :: "string \<Rightarrow> bibfields" where
  "parseIssueBody body =
     (let titleMatch = search (text_field_re ''**Title:**'') body;
          authorsMatch = search (text_field_re ''**Authors:**'') body;
          journalMatch = search (text_field_re ''**Journal:**'') body;
          yearMatch = search year_re body;
          doiMatch = search (token_field_re ''**DOI:**'') body;
          pmidMatch = search (token_field_re ''**PMID:**'') body
      in \<lparr>title = (case titleMatch of Some g \<Rightarrow> trim (g ! 0) | None \<Rightarrow> ''''),
          authors = Some (case authorsMatch of Some g \<Rightarrow> trim (g ! 0) | None \<Rightarrow> ''''),
          journal = (case journalMatch of Some g \<Rightarrow> trim (g ! 0) | None \<Rightarrow> ''''),
          year = (case yearMatch of Some g \<Rightarrow> parseInt (g ! 0) | None \<Rightarrow> None),
          doi = (case doiMatch of Some g \<Rightarrow> Some (trim (g ! 0)) | None \<Rightarrow> None),
          pmid = (case pmidMatch of Some g \<Rightarrow> Some (trim (g ! 0)) | None \<Rightarrow> None)\<rparr>)"

text \<open>
  What a run reads from outside: the three environment variables (\<open>None\<close> when unset),
  the calendar year and time stamp of the clock, and the three characters
  \<open>Math.random().toString(36).substring(2, 5)\<close> yields.
\<close>

record runtime =
  ISSUE_COMMENT :: "string option"
  ISSUE_BODY :: "string option"
  ISSUE_NUMBER :: "string option"
  currentYear :: int
  randomSuffix :: string
  nowISO :: string

definition generateId :: "bibfields \<Rightarrow> runtime \<Rightarrow> string" where
  "generateId pub rt =
     (let y = (case year pub of None \<Rightarrow> currentYear rt
                | Some n \<Rightarrow> if n = 0 then currentYear rt else n)
      in ''pub-'' @ show_int y @ ''-'' @ randomSuffix rt)"

text \<open>
  The publications file holds a dataset, or nothing that \<open>JSON.parse\<close> accepts
  (\<open>None\<close>: the file is missing or malformed, and \<open>loadPublications\<close> throws). The log
  records every access to the file.
\<close>

datatype fs_event = FsRead | FsWrite

record fsys =
  content :: "dataset option"
  fs_log :: "fs_event list"

definition loadPublications :: "fsys \<Rightarrow> dataset option \<times> fsys" where
  "loadPublications fs = (content fs, fs\<lparr>fs_log := fs_log fs @ [FsRead]\<rparr>)"

definition savePublications :: "dataset \<Rightarrow> runtime \<Rightarrow> fsys \<Rightarrow> fsys" where
  "savePublications data rt fs =
     fs\<lparr>content := Some (data\<lparr>lastUpdated := nowISO rt\<rparr>), fs_log := fs_log fs @ [FsWrite]\<rparr>"

text \<open>The entry \<open>main\<close> builds from the parsed body.\<close>

definition publication_entry :: "bibfields \<Rightarrow> runtime \<Rightarrow> curated" where
  "publication_entry pubDetails rt =
     \<lparr>title = title pubDetails, authors = authors pubDetails, journal = journal pubDetails,
      year = year pubDetails, doi = doi pubDetails, pmid = pmid pubDetails,
      id' = generateId pubDetails rt,
      links = (if truthy (doi pubDetails)
               then [(''paper'', ''https://doi.org/'' @ template_text (doi pubDetails))]
               else [])\<rparr>"

text \<open>
  \<open>main\<close> of the decision script: the exit status of the process and the file system it
  leaves. An exception (the file cannot be loaded) ends in the \<open>catch\<close> handler with
  status 1.
\<close>

definition main :: "runtime \<Rightarrow> fsys \<Rightarrow> nat \<times> fsys" where
  "main rt fs =
     (let comment = (case ISSUE_COMMENT rt of None \<Rightarrow> '''' | Some c \<Rightarrow> c);
          issueBody = (case ISSUE_BODY rt of None \<Rightarrow> '''' | Some b \<Rightarrow> b)
      in if comment = [] then (1, fs)
         else case parseCommand comment of
           None \<Rightarrow> (0, fs)
         | Some cmd \<Rightarrow>
            (let pubDetails = parseIssueBody issueBody
             in case loadPublications fs of
                  (None, fs1) \<Rightarrow> (1, fs1)
                | (Some data, fs1) \<Rightarrow>
                   (let publication = publication_entry pubDetails rt;
                        data1 = (case action cmd of
                                   Approve \<Rightarrow> data\<lparr>approved := approved data @ [publication]\<rparr>
                                 | Reject \<Rightarrow> data\<lparr>rejected := rejected data @ [publication]\<rparr>)
                    in (0, savePublications data1 rt fs1))))"

section \<open>Vocabulary of the properties\<close>

text \<open>The comment and the request body as \<open>main\<close> reads them from the environment.\<close>

definition comment_text :: "runtime \<Rightarrow> string" where
  "comment_text rt = (case ISSUE_COMMENT rt of None \<Rightarrow> [] | Some c \<Rightarrow> c)"

definition body_text :: "runtime \<Rightarrow> string" where
  "body_text rt = (case ISSUE_BODY rt of None \<Rightarrow> [] | Some b \<Rightarrow> b)"

text \<open>A keyword at the start of a text, and anywhere in it, letter case ignored.\<close>

fun starts_with_i :: "string \<Rightarrow> string \<Rightarrow> bool" where
  "starts_with_i [] s = True"
| "starts_with_i (p # ps) [] = False"
| "starts_with_i (p # ps) (c # cs) = (toLowerChar c = toLowerChar p \<and> starts_with_i ps cs)"

fun contains_i :: "string \<Rightarrow> string \<Rightarrow> bool" where
  "contains_i tok [] = starts_with_i tok []"
| "contains_i tok (c # cs) = (starts_with_i tok (c # cs) \<or> contains_i tok cs)"

definition endsWith :: "string \<Rightarrow> string \<Rightarrow> bool" where
  "endsWith s suffix =
     (length suffix \<le> length s \<and> drop (length s - length suffix) s = suffix)"

text \<open>
  The end of a rendered request: the two command templates, for the identifier text
  \<open>ident\<close> that follows \<open>/approve\<close> and \<open>/reject\<close>.
\<close>

definition actions_block :: "string \<Rightarrow> string" where
  "actions_block ident = join_lines
     [''To approve this publication and add it to the website, comment:'',
      ''```'',
      ''/approve '' @ ident,
      ''```'',
      '''',
      ''To reject this publication (won'' @ [CHR 0x27] @ ''t be asked again), comment:'',
      ''```'',
      ''/reject '' @ ident,
      ''```'']"

text \<open>
  The lines of a rendered request between the first and the last line break of the
  template, for the texts already put in: title, authors, journal, year, the doi line,
  the pmid line, the source and the identifier of the commands.
\<close>

definition issue_lines ::
  "string \<Rightarrow> string \<Rightarrow> string \<Rightarrow> string \<Rightarrow> string \<Rightarrow> string \<Rightarrow> string \<Rightarrow> string
     \<Rightarrow> string list" where
  "issue_lines T A J Y DL PL S I =
     [''## New Publication Detected'',
      '''',
      ''**Title:** '' @ T,
      '''',
      ''**Authors:** '' @ A,
      '''',
      ''**Journal:** '' @ J,
      '''',
      ''**Year:** '' @ Y,
      '''',
      DL,
      PL,
      '''',
      ''**Source:** '' @ S,
      '''',
      ''---'',
      '''',
      ''### Actions'',
      '''',
      ''To approve this publication and add it to the website, comment:'',
      ''```'',
      ''/approve '' @ I,
      ''```'',
      '''',
      ''To reject this publication (won'' @ [CHR 0x27] @ ''t be asked again), comment:'',
      ''```'',
      ''/reject '' @ I,
      ''```'']"

subsection \<open>Commands in a comment, read off the text\<close>

text \<open>
  A command at the start of \<open>s\<close> for the keyword \<open>kw\<close> (\<open>/approve\<close> or \<open>/reject\<close>):
  the keyword in any letter case, white space, \<open>doi:\<close> or \<open>pmid:\<close> in any letter case,
  and a token, the longest run of characters that are not white space. The result is the
  identifier type as the comment writes it, without the colon, and the token.
\<close>

definition non_space :: "char \<Rightarrow> bool" where
  "non_space c = (\<not> is_space c)"

definition command_at :: "string \<Rightarrow> string \<Rightarrow> (string \<times> string) option" where
  "command_at kw s =
     (if starts_with_i kw s
      then (let r = drop (length kw) s;
                t = dropWhile is_space r
            in if takeWhile is_space r = [] then None
               else if starts_with_i ''doi:'' t \<and> takeWhile non_space (drop 4 t) \<noteq> []
                 then Some (take 3 t, takeWhile non_space (drop 4 t))
               else if starts_with_i ''pmid:'' t \<and> takeWhile non_space (drop 5 t) \<noteq> []
                 then Some (take 4 t, takeWhile non_space (drop 5 t))
               else None)
      else None)"

text \<open>The first occurrence of a command for \<open>kw\<close>, from left to right.\<close>

fun first_command :: "string \<Rightarrow> string \<Rightarrow> (string \<times> string) option" where
  "first_command kw [] = command_at kw []"
| "first_command kw (c # cs) =
     (case command_at kw (c # cs) of Some d \<Rightarrow> Some d | None \<Rightarrow> first_command kw cs)"

text \<open>
  Two readings of "the first occurrence of an approve or a reject command".
  \<open>parseCommand_first\<close> takes whichever command comes first in the comment.
  \<open>parseCommand_priority\<close> takes the first approve command wherever it stands, and
  the first reject command only when the comment has no approve command.
\<close>

fun parseCommand_first :: "string \<Rightarrow> command option" where
  "parseCommand_first [] = None"
| "parseCommand_first (c # cs) =
     (case command_at ''/approve'' (c # cs) of
        Some (k, v) \<Rightarrow> Some \<lparr>action = Approve, idType = k, idValue = v\<rparr>
      | None \<Rightarrow>
         (case command_at ''/reject'' (c # cs) of
            Some (k, v) \<Rightarrow> Some \<lparr>action = Reject, idType = k, idValue = v\<rparr>
          | None \<Rightarrow> parseCommand_first cs))"

definition parseCommand_priority :: "string \<Rightarrow> command option" where
  "parseCommand_priority comment =
     (case first_command ''/approve'' comment of
        Some (k, v) \<Rightarrow> Some \<lparr>action = Approve, idType = k, idValue = v\<rparr>
      | None \<Rightarrow>
         (case first_command ''/reject'' comment of
            Some (k, v) \<Rightarrow> Some \<lparr>action = Reject, idType = k, idValue = v\<rparr>
          | None \<Rightarrow> None))"

text \<open>The part \<open>(doi:|pmid:)\<close> and the whole pattern of a command.\<close>

definition kind_re :: regex where
  "kind_re = Grp (Alt (lit_i ''doi:'') (lit_i ''pmid:''))"

definition command_re :: "string \<Rightarrow> regex" where
  "command_re kw = Seq (lit_i kw) (Seq (Plus Space) (Seq kind_re (Grp (Plus NonSpace))))"

subsection \<open>Records that survive rendering and parsing\<close>

text \<open>
  A label of the request format starts with two asterisks. \<open>plain_text\<close> is a line of
  text that \<open>(.+)\<close> and \<open>trim\<close> give back whole: not empty, no white space at either
  end, no line terminator, no double asterisk. \<open>token_text\<close> is an identifier that
  \<open>(\S+)\<close> gives back whole: not empty, no white space, no double asterisk.
\<close>

fun no_double_star :: "string \<Rightarrow> bool" where
  "no_double_star [] = True"
| "no_double_star [a] = True"
| "no_double_star (a # b # r) = (\<not> (a = CHR ''*'' \<and> b = CHR ''*'') \<and> no_double_star (b # r))"

definition plain_text :: "string \<Rightarrow> bool" where
  "plain_text s = (s \<noteq> [] \<and> \<not> is_space (hd s) \<and> \<not> is_space (last s) \<and>
     list_all (\<lambda>c. \<not> is_line_terminator c) s \<and> no_double_star s)"

definition token_text :: "string \<Rightarrow> bool" where
  "token_text s = (s \<noteq> [] \<and> list_all (\<lambda>c. \<not> is_space c) s \<and> no_double_star s)"

text \<open>
  A record is \<open>renderable\<close> when its title is plain text, its authors, journal, doi and
  pmid are absent, empty or well formed, and its year, if any, is an integer that a
  JavaScript number holds exactly.
\<close>

definition renderable :: "fetched \<Rightarrow> bool" where
  "renderable pub =
     (plain_text (title pub) \<and>
      (case authors pub of None \<Rightarrow> True | Some a \<Rightarrow> a = [] \<or> plain_text a) \<and>
      (journal pub = [] \<or> plain_text (journal pub)) \<and>
      (case year pub of None \<Rightarrow> True | Some y \<Rightarrow> \<bar>y\<bar> < 2 ^ 53) \<and>
      (case doi pub of None \<Rightarrow> True | Some d \<Rightarrow> d = [] \<or> token_text d) \<and>
      (case pmid pub of None \<Rightarrow> True | Some p \<Rightarrow> p = [] \<or> token_text p))"

text \<open>
  What parsing the rendered request of a record gives: absent or empty authors and
  journal come back as the placeholder \<open>N/A\<close>, a year that is absent, zero or negative
  comes back absent, an empty identifier comes back absent.
\<close>

definition reparsed :: "fetched \<Rightarrow> bibfields" where
  "reparsed pub =
     \<lparr>title = title pub,
      authors = Some (if truthy (authors pub) then template_text (authors pub) else ''N/A''),
      journal = (if journal pub \<noteq> [] then journal pub else ''N/A''),
      year = (case year pub of None \<Rightarrow> None | Some y \<Rightarrow> if 0 < y then Some y else None),
      doi = (if truthy (doi pub) then doi pub else None),
      pmid = (if truthy (pmid pub) then pmid pub else None)\<rparr>"

text \<open>
  The record a round trip should give when an absent field may only become empty or
  absent.
\<close>

definition absent_normalized :: "fetched \<Rightarrow> bibfields" where
  "absent_normalized pub =
     \<lparr>title = title pub,
      authors = Some (case authors pub of None \<Rightarrow> [] | Some a \<Rightarrow> a),
      journal = journal pub,
      year = year pub,
      doi = (if truthy (doi pub) then doi pub else None),
      pmid = (if truthy (pmid pub) then pmid pub else None)\<rparr>"

section \<open>Sample data\<close>

definition scenarioA_rejected :: curated where
  "scenarioA_rejected = \<lparr>title = ''An older paper'', authors = Some ''Rubin BE'',
     journal = ''Cell'', year = Some 2019, doi = Some ''10.1/x'', pmid = None,
     id' = ''pub-2019-abc'', links = []\<rparr>"

definition scenarioA_dataset :: dataset where
  "scenarioA_dataset = \<lparr>approved = [], pending = [], rejected = [scenarioA_rejected],
     lastUpdated = ''2024-01-01T00:00:00.000Z''\<rparr>"

definition scenarioA_fetched :: fetched where
  "scenarioA_fetched = \<lparr>title = ''A fresh title'', authors = None, journal = ''Nature'',
     year = Some 2024, doi = Some ''10.1/x'', pmid = None, source = Orcid\<rparr>"

definition orcid_copy :: fetched where
  "orcid_copy = \<lparr>title = ''Genome editing in cyanobacteria'', authors = None,
     journal = ''Science'', year = Some 2022, doi = Some ''10.7/z'', pmid = Some ''31415926'',
     source = Orcid\<rparr>"

definition pubmed_copy :: fetched where
  "pubmed_copy = \<lparr>title = ''Genome editing in cyanobacteria.'', authors = Some ''Rubin BE'',
     journal = ''Science'', year = Some 2022, doi = Some ''10.7/z'', pmid = Some ''31415926'',
     source = Pubmed\<rparr>"

definition orcid_first :: fetched where
  "orcid_first = \<lparr>title = ''Genome editing in cyanobacteria (preprint)'', authors = None,
     journal = ''bioRxiv'', year = Some 2021, doi = Some ''10.7/z'', pmid = None,
     source = Orcid\<rparr>"

definition pubmed_copy_no_doi :: fetched where
  "pubmed_copy_no_doi = pubmed_copy\<lparr>doi := None\<rparr>"

definition no_ids :: fetched where
  "no_ids = \<lparr>title = ''Foo'', authors = None, journal = '''', year = None, doi = None,
     pmid = None, source = Orcid\<rparr>"

definition scenarioB_body :: string where
  "scenarioB_body = join_lines [''**Title:** Foo'', ''**DOI:** 10.5/y'']"

definition sample_runtime :: runtime where
  "sample_runtime = \<lparr>ISSUE_COMMENT = Some ''/approve doi:10.5/y'',
     ISSUE_BODY = Some scenarioB_body, ISSUE_NUMBER = Some ''17'', currentYear = 2026,
     randomSuffix = ''k3x'', nowISO = ''2026-11-02T12:00:00.000Z''\<rparr>"

definition sample_fs :: fsys where
  "sample_fs = \<lparr>content = Some scenarioA_dataset, fs_log = []\<rparr>"

definition scenarioB_record :: fetched where
  "scenarioB_record = \<lparr>title = ''Foo'', authors = Some ''Rubin BE'', journal = ''Nature'',
     year = Some 2023, doi = Some ''10.5/y'', pmid = None, source = Pubmed\<rparr>"

section \<open>Reconciliation against the dataset\<close>

lemma exists_loop_doi:
  "e \<in> set xs \<Longrightarrow> doi pub = Some d \<Longrightarrow> doi e = Some d \<Longrightarrow> d \<noteq> [] \<Longrightarrow> exists_loop pub xs"
  by (induction xs) auto

text \<open>
  C2. A fetched record whose non-empty doi is the doi of an entry of the \<open>rejected\<close>
  list exists for the matcher, so the filter of \<open>main\<close> leaves it out of the new
  publications, whatever \<open>approved\<close> and \<open>pending\<close> hold.
\<close>

theorem rejected_doi_excluded:
  assumes "e \<in> set (rejected ds)" and "doi pub = Some d" and "doi e = Some d" and "d \<noteq> []"
  shows "publicationExists pub ds \<and> pub \<notin> set (newPublications orcidPubs pubmedPubs ds)"
proof -
  from assms have "exists_loop pub (approved ds @ pending ds @ rejected ds)"
    by (intro exists_loop_doi[where e = e and d = d]) auto
  then have "publicationExists pub ds" by (simp add: publicationExists_def)
  then show ?thesis by (simp add: newPublications_def)
qed

theorem rejected_doi_excluded_witness:
  "publicationExists scenarioA_fetched scenarioA_dataset \<and>
   scenarioA_fetched \<notin> set (newPublications [scenarioA_fetched] [] scenarioA_dataset) \<and>
   newPublications [scenarioA_fetched] [] scenarioA_dataset = []"
  using rejected_doi_excluded[of scenarioA_rejected scenarioA_dataset scenarioA_fetched
      "''10.1/x''" "[scenarioA_fetched]" "[]"]
  by (simp add: scenarioA_dataset_def scenarioA_rejected_def scenarioA_fetched_def
      newPublications_def uniquePubs_def dedup_key_def)

section \<open>Deduplication of one fetch cycle\<close>

lemma dedup_loop_filter:
  "filter (\<lambda>p. dedup_key p = d) (dedup_loop xs seen acc) =
     filter (\<lambda>p. dedup_key p = d) acc @
       (if d \<in> seen then []
        else (case List.find (\<lambda>p. dedup_key p = d) xs of None \<Rightarrow> [] | Some s \<Rightarrow> [s]))"
  by (induction xs arbitrary: seen acc) (auto simp: Let_def)

lemma find_append_in:
  "a \<in> set xs \<Longrightarrow> P a \<Longrightarrow> \<exists>s. List.find P (xs @ ys) = Some s \<and> s \<in> set xs \<and> P s"
  by (induction xs) auto

text \<open>
  C5 (as amended). Two fetched records carry the same non-empty doi \<open>d\<close>, \<open>a\<close> from
  ORCID and \<open>b\<close> from PubMed. Of all records whose seen-set key is \<open>d\<close> exactly one
  survives the deduplication: the first of them in fetch order, which is an ORCID record.
  The PubMed record \<open>b\<close> never survives, and the ORCID record \<open>a\<close> survives exactly when
  it is that first record.
\<close>

theorem dedup_same_doi:
  assumes "a \<in> set orcidPubs" and "b \<in> set pubmedPubs"
    and "doi a = Some d" and "doi b = Some d" and "d \<noteq> []"
    and "list_all (\<lambda>p. source p = Orcid) orcidPubs" and "source b = Pubmed"
  shows "\<exists>s. List.find (\<lambda>p. dedup_key p = d) (orcidPubs @ pubmedPubs) = Some s \<and>
             s \<in> set orcidPubs \<and>
             filter (\<lambda>p. dedup_key p = d) (uniquePubs orcidPubs pubmedPubs) = [s] \<and>
             b \<notin> set (uniquePubs orcidPubs pubmedPubs) \<and>
             (a \<in> set (uniquePubs orcidPubs pubmedPubs) \<longleftrightarrow> s = a)"
proof -
  let ?u = "uniquePubs orcidPubs pubmedPubs"
  have ka: "dedup_key a = d" and kb: "dedup_key b = d"
    using assms by (simp_all add: dedup_key_def)
  from find_append_in[of a orcidPubs "\<lambda>p. dedup_key p = d" pubmedPubs] assms(1) ka
  obtain s where s: "List.find (\<lambda>p. dedup_key p = d) (orcidPubs @ pubmedPubs) = Some s"
    "s \<in> set orcidPubs" by blast
  have f: "filter (\<lambda>p. dedup_key p = d) ?u = [s]"
    using s(1) by (simp add: uniquePubs_def dedup_loop_filter)
  have srcs: "source s = Orcid" using assms(6) s(2) by (simp add: list_all_iff)
  have mem: "x = s" if "x \<in> set ?u" and "dedup_key x = d" for x
  proof -
    from that have "x \<in> set (filter (\<lambda>p. dedup_key p = d) ?u)" by simp
    then show "x = s" by (simp add: f)
  qed
  have nb: "b \<notin> set ?u" using mem[of b] kb srcs assms(7) by auto
  have "s \<in> set (filter (\<lambda>p. dedup_key p = d) ?u)" by (simp add: f)
  then have sin: "s \<in> set ?u" by simp
  have "a \<in> set ?u \<longleftrightarrow> s = a" using mem[of a] ka sin by auto
  with s f nb show ?thesis by blast
qed

theorem dedup_same_doi_witness:
  "uniquePubs [orcid_copy] [pubmed_copy] = [orcid_copy] \<and>
   (\<exists>s. List.find (\<lambda>p. dedup_key p = ''10.7/z'') ([orcid_copy] @ [pubmed_copy]) = Some s \<and>
        s \<in> set [orcid_copy] \<and>
        filter (\<lambda>p. dedup_key p = ''10.7/z'') (uniquePubs [orcid_copy] [pubmed_copy]) = [s] \<and>
        pubmed_copy \<notin> set (uniquePubs [orcid_copy] [pubmed_copy]) \<and>
        (orcid_copy \<in> set (uniquePubs [orcid_copy] [pubmed_copy]) \<longleftrightarrow> s = orcid_copy))"
  using dedup_same_doi[of orcid_copy "[orcid_copy]" pubmed_copy "[pubmed_copy]" "''10.7/z''"]
  by (simp add: orcid_copy_def pubmed_copy_def uniquePubs_def dedup_key_def)

text \<open>
  C5 as stated fails when an earlier ORCID record has the same key: of the pair
  \<open>orcid_copy\<close> from ORCID and \<open>pubmed_copy\<close> from PubMed, which carry the same doi,
  neither survives; the one survivor is the earlier record \<open>orcid_first\<close>.
\<close>

theorem dedup_same_doi_counterexample:
  "orcid_copy \<in> set [orcid_first, orcid_copy] \<and> pubmed_copy \<in> set [pubmed_copy] \<and>
   doi orcid_copy = Some ''10.7/z'' \<and> doi pubmed_copy = Some ''10.7/z'' \<and>
   source orcid_first = Orcid \<and> source orcid_copy = Orcid \<and> source pubmed_copy = Pubmed \<and>
   uniquePubs [orcid_first, orcid_copy] [pubmed_copy] = [orcid_first] \<and>
   orcid_copy \<notin> set (uniquePubs [orcid_first, orcid_copy] [pubmed_copy]) \<and>
   pubmed_copy \<notin> set (uniquePubs [orcid_first, orcid_copy] [pubmed_copy])"
  by (simp add: orcid_first_def orcid_copy_def pubmed_copy_def uniquePubs_def dedup_key_def
      Let_def)

text \<open>
  C10. There are two fetched records that the matcher takes for the same publication
  (same non-empty pmid; the earlier one has a doi, the later one has none) and that both
  survive the deduplication, because the seen-set key of the first is its doi and the key
  of the second is its pmid.
\<close>

theorem dedup_misses_matcher_duplicate:
  "\<exists>a b. truthy (pmid a) \<and> pmid b = pmid a \<and> truthy (doi a) \<and> doi b = None \<and>
         exists_loop b [a] \<and> exists_loop a [b] \<and>
         dedup_key a = template_text (doi a) \<and> dedup_key b = template_text (pmid b) \<and>
         dedup_key a \<noteq> dedup_key b \<and>
         uniquePubs [a] [b] = [a, b]"
  by (intro exI[of _ orcid_copy] exI[of _ pubmed_copy_no_doi])
     (simp add: orcid_copy_def pubmed_copy_no_doi_def pubmed_copy_def uniquePubs_def
        dedup_key_def Let_def)

section \<open>The matcher on literals\<close>

lemma run_lit_i:
  "run (R (lit_i kw) # k) s caps =
     (if starts_with_i kw s then run k (drop (length kw) s) caps else None)"
  by (induction kw s arbitrary: rule: starts_with_i.induct) auto

lemma run_seq_lit_i:
  "run [R (Seq (lit_i kw) r)] s caps =
     (if starts_with_i kw s then run [R r] (drop (length kw) s) caps else None)"
  by (simp add: run_lit_i)

lemma search_lit_i_contains:
  "search (Seq (lit_i kw) r) s = Some g \<Longrightarrow> contains_i kw s"
  by (induction s) (auto simp: run_seq_lit_i simp del: run.simps split: option.splits if_splits)

section \<open>The decision script\<close>

lemma parseCommand_None:
  assumes "\<not> contains_i ''/approve'' c" and "\<not> contains_i ''/reject'' c"
  shows "parseCommand c = None"
proof -
  have "search approve_re c = None"
    using assms(1) search_lit_i_contains[of "''/approve''" _ c]
    unfolding approve_re_def by (cases "search (Seq (lit_i ''/approve'') (Seq (Plus Space)
     (Seq (Grp (Alt (lit_i ''doi:'') (lit_i ''pmid:''))) (Grp (Plus NonSpace))))) c") auto
  moreover have "search reject_re c = None"
    using assms(2) search_lit_i_contains[of "''/reject''" _ c]
    unfolding reject_re_def by (cases "search (Seq (lit_i ''/reject'') (Seq (Plus Space)
     (Seq (Grp (Alt (lit_i ''doi:'') (lit_i ''pmid:''))) (Grp (Plus NonSpace))))) c") auto
  ultimately show ?thesis by (simp add: parseCommand_def)
qed

lemma parseCommand_Nil: "parseCommand [] = None"
  by (simp add: parseCommand_def approve_re_def reject_re_def)

text \<open>
  C8. When the comment holds neither \<open>/approve\<close> nor \<open>/reject\<close> in any letter case,
  \<open>parseCommand\<close> gives nothing and the run ends with the file system as it found it:
  nothing read (the log has no new entry), nothing written. The exit status is 0, or 1
  for an empty comment.
\<close>

theorem no_command_no_access:
  assumes "\<not> contains_i ''/approve'' (comment_text rt)"
    and "\<not> contains_i ''/reject'' (comment_text rt)"
  shows "parseCommand (comment_text rt) = None \<and> snd (main rt fs) = fs \<and>
         fst (main rt fs) = (if comment_text rt = [] then 1 else 0)"
proof -
  have "parseCommand (comment_text rt) = None" using assms by (rule parseCommand_None)
  then show ?thesis by (simp add: main_def Let_def comment_text_def)
qed

theorem no_command_no_access_witness:
  "parseCommand ''Looks good to me, thanks!'' = None \<and>
   main (sample_runtime\<lparr>ISSUE_COMMENT := Some ''Looks good to me, thanks!''\<rparr>) sample_fs =
     (0, sample_fs)"
proof -
  let ?rt = "sample_runtime\<lparr>ISSUE_COMMENT := Some ''Looks good to me, thanks!''\<rparr>"
  have c: "comment_text ?rt = ''Looks good to me, thanks!''"
    by (simp add: comment_text_def)
  have a: "\<not> contains_i ''/approve'' (comment_text ?rt)" unfolding c by code_simp
  have r: "\<not> contains_i ''/reject'' (comment_text ?rt)" unfolding c by code_simp
  from no_command_no_access[OF a r, of sample_fs] show ?thesis
    unfolding c by (simp add: prod_eq_iff)
qed

lemma publication_entry_comment:
  "publication_entry pd (rt\<lparr>ISSUE_COMMENT := x\<rparr>) = publication_entry pd rt"
  by (simp add: publication_entry_def generateId_def split: option.splits)

lemma main_parsed:
  assumes "ISSUE_COMMENT rt = Some c" and "parseCommand c = Some cmd"
  shows "main rt fs =
    (case content fs of
       None \<Rightarrow> (1, fs\<lparr>fs_log := fs_log fs @ [FsRead]\<rparr>)
     | Some ds \<Rightarrow>
        (0, \<lparr>content = Some ((case action cmd of
                Approve \<Rightarrow> ds\<lparr>approved := approved ds @
                   [publication_entry (parseIssueBody (body_text rt)) rt]\<rparr>
              | Reject \<Rightarrow> ds\<lparr>rejected := rejected ds @
                   [publication_entry (parseIssueBody (body_text rt)) rt]\<rparr>)
                \<lparr>lastUpdated := nowISO rt\<rparr>),
             fs_log = fs_log fs @ [FsRead, FsWrite]\<rparr>))"
proof -
  have "c \<noteq> []" using assms(2) parseCommand_Nil by auto
  then show ?thesis using assms
    by (simp add: main_def Let_def loadPublications_def savePublications_def body_text_def
        split: action.splits option.splits)
qed

lemma main_with_command:
  assumes "ISSUE_COMMENT rt = Some c" and "parseCommand c = Some cmd" and "content fs = Some ds"
  shows "main rt fs = (0, \<lparr>content = Some ((case action cmd of
            Approve \<Rightarrow> ds\<lparr>approved := approved ds @
               [publication_entry (parseIssueBody (body_text rt)) rt]\<rparr>
          | Reject \<Rightarrow> ds\<lparr>rejected := rejected ds @
               [publication_entry (parseIssueBody (body_text rt)) rt]\<rparr>)
            \<lparr>lastUpdated := nowISO rt\<rparr>), fs_log = fs_log fs @ [FsRead, FsWrite]\<rparr>)"
  using main_parsed[OF assms(1,2), of fs] assms(3) by simp

lemma parse_scenarioB_command:
  "parseCommand ''/approve doi:10.5/y'' =
     Some \<lparr>action = Approve, idType = ''doi'', idValue = ''10.5/y''\<rparr>"
  by code_simp

lemma parse_scenarioB_body:
  "parseIssueBody scenarioB_body = \<lparr>title = ''Foo'', authors = Some '''', journal = '''',
     year = None, doi = Some ''10.5/y'', pmid = None\<rparr>"
  by code_simp

lemma parse_scenarioB_rendered:
  "parseIssueBody (generateIssueBody scenarioB_record) =
     \<lparr>title = ''Foo'', authors = Some ''Rubin BE'', journal = ''Nature'', year = Some 2023,
      doi = Some ''10.5/y'', pmid = None\<rparr>"
  by code_simp

text \<open>
  C3. The comment \<open>/approve doi:10.5/y\<close> parses to the decision approve, doi, 10.5/y.
  Against the request body of the two lines \<open>**Title:** Foo\<close> and \<open>**DOI:** 10.5/y\<close>,
  and against the request rendered for a record with that title and doi, whatever the
  dataset in the file, the clock and the random suffix are, the run reads the file once,
  writes it once, and the dataset written is the old one with exactly one entry more at
  the end of \<open>approved\<close>, whose \<open>links\<close> holds \<open>paper\<close> with
  \<open>https://doi.org/10.5/y\<close>.
\<close>

theorem scenario_B:
  "parseCommand ''/approve doi:10.5/y'' =
     Some \<lparr>action = Approve, idType = ''doi'', idValue = ''10.5/y''\<rparr> \<and>
   main \<lparr>ISSUE_COMMENT = Some ''/approve doi:10.5/y'', ISSUE_BODY = Some scenarioB_body,
         ISSUE_NUMBER = n, currentYear = y, randomSuffix = sfx, nowISO = t\<rparr>
        \<lparr>content = Some ds, fs_log = l\<rparr> =
     (0, \<lparr>content = Some (ds\<lparr>approved := approved ds @
             [\<lparr>title = ''Foo'', authors = Some '''', journal = '''', year = None,
               doi = Some ''10.5/y'', pmid = None, id' = ''pub-'' @ show_int y @ ''-'' @ sfx,
               links = [(''paper'', ''https://doi.org/10.5/y'')]\<rparr>],
             lastUpdated := t\<rparr>),
          fs_log = l @ [FsRead, FsWrite]\<rparr>) \<and>
   main \<lparr>ISSUE_COMMENT = Some ''/approve doi:10.5/y'',
         ISSUE_BODY = Some (generateIssueBody scenarioB_record),
         ISSUE_NUMBER = n, currentYear = y, randomSuffix = sfx, nowISO = t\<rparr>
        \<lparr>content = Some ds, fs_log = l\<rparr> =
     (0, \<lparr>content = Some (ds\<lparr>approved := approved ds @
             [\<lparr>title = ''Foo'', authors = Some ''Rubin BE'', journal = ''Nature'',
               year = Some 2023, doi = Some ''10.5/y'', pmid = None,
               id' = ''pub-'' @ show_int 2023 @ ''-'' @ sfx,
               links = [(''paper'', ''https://doi.org/10.5/y'')]\<rparr>],
             lastUpdated := t\<rparr>),
          fs_log = l @ [FsRead, FsWrite]\<rparr>)"
proof -
  let ?c = "''/approve doi:10.5/y''"
  let ?rt1 = "\<lparr>ISSUE_COMMENT = Some ?c, ISSUE_BODY = Some scenarioB_body,
         ISSUE_NUMBER = n, currentYear = y, randomSuffix = sfx, nowISO = t\<rparr>"
  let ?rt2 = "\<lparr>ISSUE_COMMENT = Some ?c, ISSUE_BODY = Some (generateIssueBody scenarioB_record),
         ISSUE_NUMBER = n, currentYear = y, randomSuffix = sfx, nowISO = t\<rparr>"
  let ?fs = "\<lparr>content = Some ds, fs_log = l\<rparr>"
  have b1: "body_text ?rt1 = scenarioB_body"
    and b2: "body_text ?rt2 = generateIssueBody scenarioB_record"
    by (simp_all add: body_text_def)
  have m1: "main ?rt1 ?fs = (0, \<lparr>content = Some (ds\<lparr>approved := approved ds @
             [\<lparr>title = ''Foo'', authors = Some '''', journal = '''', year = None,
               doi = Some ''10.5/y'', pmid = None, id' = ''pub-'' @ show_int y @ ''-'' @ sfx,
               links = [(''paper'', ''https://doi.org/10.5/y'')]\<rparr>],
             lastUpdated := t\<rparr>),
          fs_log = l @ [FsRead, FsWrite]\<rparr>)"
    using main_with_command[of ?rt1 ?c _ ?fs ds, OF _ parse_scenarioB_command]
    unfolding b1 parse_scenarioB_body
    by (simp add: publication_entry_def generateId_def)
  have m2: "main ?rt2 ?fs = (0, \<lparr>content = Some (ds\<lparr>approved := approved ds @
             [\<lparr>title = ''Foo'', authors = Some ''Rubin BE'', journal = ''Nature'',
               year = Some 2023, doi = Some ''10.5/y'', pmid = None,
               id' = ''pub-'' @ show_int 2023 @ ''-'' @ sfx,
               links = [(''paper'', ''https://doi.org/10.5/y'')]\<rparr>],
             lastUpdated := t\<rparr>),
          fs_log = l @ [FsRead, FsWrite]\<rparr>)"
    using main_with_command[of ?rt2 ?c _ ?fs ds, OF _ parse_scenarioB_command]
    unfolding b2 parse_scenarioB_rendered
    by (simp add: publication_entry_def generateId_def)
  from parse_scenarioB_command m1 m2 show ?thesis by (intro conjI)
qed

text \<open>
  C7. When the comment parses to a decision and the file holds a dataset, the dataset
  written has the same \<open>pending\<close> list; for approve, \<open>approved\<close> is the old list with the
  built entry appended and \<open>rejected\<close> is unchanged; for reject, \<open>rejected\<close> is the old
  list with the built entry appended and \<open>approved\<close> is unchanged.
\<close>

theorem apply_frame:
  assumes "ISSUE_COMMENT rt = Some c" and "parseCommand c = Some cmd" and "content fs = Some ds"
  shows "\<exists>ds'. content (snd (main rt fs)) = Some ds' \<and> pending ds' = pending ds \<and>
    (case action cmd of
       Approve \<Rightarrow>
         approved ds' = approved ds @ [publication_entry (parseIssueBody (body_text rt)) rt] \<and>
         rejected ds' = rejected ds
     | Reject \<Rightarrow>
         rejected ds' = rejected ds @ [publication_entry (parseIssueBody (body_text rt)) rt] \<and>
         approved ds' = approved ds)"
  using main_with_command[OF assms] by (cases "action cmd") simp_all

theorem apply_frame_witness:
  "\<exists>ds'. content (snd (main (sample_runtime\<lparr>ISSUE_COMMENT := Some ''/reject pmid:31415926''\<rparr>)
             sample_fs)) = Some ds' \<and>
     pending ds' = [] \<and>
     rejected ds' = [scenarioA_rejected,
        publication_entry (parseIssueBody scenarioB_body) sample_runtime] \<and>
     approved ds' = []"
proof -
  let ?rt = "sample_runtime\<lparr>ISSUE_COMMENT := Some ''/reject pmid:31415926''\<rparr>"
  have p: "parseCommand ''/reject pmid:31415926'' =
      Some \<lparr>action = Reject, idType = ''pmid'', idValue = ''31415926''\<rparr>"
    by code_simp
  have c: "ISSUE_COMMENT ?rt = Some ''/reject pmid:31415926''" by simp
  have f: "content sample_fs = Some scenarioA_dataset" by (simp add: sample_fs_def)
  have b: "body_text ?rt = scenarioB_body" by (simp add: body_text_def sample_runtime_def)
  from apply_frame[OF c p f] show ?thesis
    by (simp add: b publication_entry_comment scenarioA_dataset_def)
qed

text \<open>
  C9. Two comments that parse to decisions with the same action, whatever identifier
  type and value each names, lead to the same exit status and the same file system.
  When the file holds a dataset, the entry appended has the title, authors, journal,
  year, doi and pmid that \<open>parseIssueBody\<close> reads from the request body. So the
  identifier of the command reaches no field of the stored record and is compared with
  nothing.
\<close>

theorem entry_from_body_only:
  assumes "parseCommand c1 = Some cmd1" and "parseCommand c2 = Some cmd2"
    and "action cmd1 = action cmd2"
  shows "main (rt\<lparr>ISSUE_COMMENT := Some c1\<rparr>) fs = main (rt\<lparr>ISSUE_COMMENT := Some c2\<rparr>) fs \<and>
    (case content fs of None \<Rightarrow> True | Some ds \<Rightarrow>
      (\<exists>ds' e. content (snd (main (rt\<lparr>ISSUE_COMMENT := Some c1\<rparr>) fs)) = Some ds' \<and>
         (case action cmd1 of Approve \<Rightarrow> approved ds' = approved ds @ [e]
                            | Reject \<Rightarrow> rejected ds' = rejected ds @ [e]) \<and>
         title e = title (parseIssueBody (body_text rt)) \<and>
         authors e = authors (parseIssueBody (body_text rt)) \<and>
         journal e = journal (parseIssueBody (body_text rt)) \<and>
         year e = year (parseIssueBody (body_text rt)) \<and>
         doi e = doi (parseIssueBody (body_text rt)) \<and>
         pmid e = pmid (parseIssueBody (body_text rt))))"
proof -
  let ?rt1 = "rt\<lparr>ISSUE_COMMENT := Some c1\<rparr>" and ?rt2 = "rt\<lparr>ISSUE_COMMENT := Some c2\<rparr>"
  have b: "body_text ?rt1 = body_text rt" "body_text ?rt2 = body_text rt"
    by (simp_all add: body_text_def)
  have m1: "main ?rt1 fs = (case content fs of
       None \<Rightarrow> (1, fs\<lparr>fs_log := fs_log fs @ [FsRead]\<rparr>)
     | Some ds \<Rightarrow>
        (0, \<lparr>content = Some ((case action cmd1 of
                Approve \<Rightarrow> ds\<lparr>approved := approved ds @
                   [publication_entry (parseIssueBody (body_text rt)) rt]\<rparr>
              | Reject \<Rightarrow> ds\<lparr>rejected := rejected ds @
                   [publication_entry (parseIssueBody (body_text rt)) rt]\<rparr>)
                \<lparr>lastUpdated := nowISO rt\<rparr>),
             fs_log = fs_log fs @ [FsRead, FsWrite]\<rparr>))"
    using main_parsed[of ?rt1 c1 cmd1 fs] assms(1)
    by (simp add: b publication_entry_comment split: option.splits action.splits)
  have m2: "main ?rt2 fs = (case content fs of
       None \<Rightarrow> (1, fs\<lparr>fs_log := fs_log fs @ [FsRead]\<rparr>)
     | Some ds \<Rightarrow>
        (0, \<lparr>content = Some ((case action cmd2 of
                Approve \<Rightarrow> ds\<lparr>approved := approved ds @
                   [publication_entry (parseIssueBody (body_text rt)) rt]\<rparr>
              | Reject \<Rightarrow> ds\<lparr>rejected := rejected ds @
                   [publication_entry (parseIssueBody (body_text rt)) rt]\<rparr>)
                \<lparr>lastUpdated := nowISO rt\<rparr>),
             fs_log = fs_log fs @ [FsRead, FsWrite]\<rparr>))"
    using main_parsed[of ?rt2 c2 cmd2 fs] assms(2)
    by (simp add: b publication_entry_comment split: option.splits action.splits)
  have eq: "main ?rt1 fs = main ?rt2 fs"
    by (simp only: m1 m2 assms(3))
  have fields: "case content fs of None \<Rightarrow> True | Some ds \<Rightarrow>
      (\<exists>ds' e. content (snd (main ?rt1 fs)) = Some ds' \<and>
         (case action cmd1 of Approve \<Rightarrow> approved ds' = approved ds @ [e]
                            | Reject \<Rightarrow> rejected ds' = rejected ds @ [e]) \<and>
         title e = title (parseIssueBody (body_text rt)) \<and>
         authors e = authors (parseIssueBody (body_text rt)) \<and>
         journal e = journal (parseIssueBody (body_text rt)) \<and>
         year e = year (parseIssueBody (body_text rt)) \<and>
         doi e = doi (parseIssueBody (body_text rt)) \<and>
         pmid e = pmid (parseIssueBody (body_text rt)))"
  proof (cases "content fs")
    case None
    then show ?thesis by simp
  next
    case (Some ds)
    then show ?thesis unfolding m1
      by (cases "action cmd1") (simp_all add: publication_entry_def)
  qed
  from eq fields show ?thesis by (rule conjI)
qed

theorem entry_from_body_only_witness:
  "main (sample_runtime\<lparr>ISSUE_COMMENT := Some ''/approve doi:10.9/other''\<rparr>) sample_fs =
   main (sample_runtime\<lparr>ISSUE_COMMENT := Some ''/approve pmid:42''\<rparr>) sample_fs \<and>
   (\<exists>ds' e. content (snd (main (sample_runtime\<lparr>ISSUE_COMMENT := Some ''/approve doi:10.9/other''\<rparr>)
        sample_fs)) = Some ds' \<and>
      approved ds' = [e] \<and> title e = ''Foo'' \<and> doi e = Some ''10.5/y'' \<and> pmid e = None)"
proof -
  have p1: "parseCommand ''/approve doi:10.9/other'' =
      Some \<lparr>action = Approve, idType = ''doi'', idValue = ''10.9/other''\<rparr>"
    by code_simp
  have p2: "parseCommand ''/approve pmid:42'' =
      Some \<lparr>action = Approve, idType = ''pmid'', idValue = ''42''\<rparr>"
    by code_simp
  have b: "body_text sample_runtime = scenarioB_body"
    by (simp add: body_text_def sample_runtime_def)
  from entry_from_body_only[OF p1 p2, of sample_runtime sample_fs] show ?thesis
    by (auto simp: b parse_scenarioB_body sample_fs_def scenarioA_dataset_def)
qed

section \<open>Commands: the patterns against the text\<close>

lemma run_star_skip:
  assumes "\<And>x xs caps. in_class c x \<Longrightarrow> run k (x # xs) caps = None"
  shows "run (R (Star c) # k) s caps = run k (dropWhile (in_class c) s) caps"
proof (induction s)
  case Nil
  then show ?case by simp
next
  case (Cons x xs)
  then show ?case using assms by (auto split: option.splits)
qed

lemma run_plus_skip:
  assumes "\<And>x xs caps. in_class c x \<Longrightarrow> run k (x # xs) caps = None"
  shows "run (R (Plus c) # k) s caps =
     (if takeWhile (in_class c) s = [] then None else run k (dropWhile (in_class c) s) caps)"
proof (cases s)
  case Nil
  then show ?thesis by simp
next
  case (Cons x xs)
  then show ?thesis using run_star_skip[of c k xs caps, OF assms] by simp
qed

lemma take_length_dropWhile:
  "take (length xs - length (dropWhile P xs)) xs = takeWhile P xs"
proof -
  have "length xs - length (dropWhile P xs) = length (takeWhile P xs)"
    by (metis add_diff_cancel_right' length_append takeWhile_dropWhile_id)
  then show ?thesis by (metis append_eq_conv_conj takeWhile_dropWhile_id)
qed

lemma run_star_close:
  "length s \<le> length s0 \<Longrightarrow> run [R (Star c), Close s0] s caps =
     Some (caps @ [take (length s0 - length (dropWhile (in_class c) s)) s0])"
  by (induction s) auto

lemma run_plus_close:
  "run [R (Plus c), Close s] s caps =
     (if takeWhile (in_class c) s = [] then None
      else Some (caps @ [takeWhile (in_class c) s]))"
proof (cases s)
  case Nil
  then show ?thesis by simp
next
  case (Cons x xs)
  show ?thesis
  proof (cases "in_class c x")
    case False
    then show ?thesis using Cons by simp
  next
    case True
    have "length (dropWhile (in_class c) xs) \<le> length xs" by (rule length_dropWhile_le)
    then have "take (Suc (length xs) - length (dropWhile (in_class c) xs)) (x # xs) =
        x # take (length xs - length (dropWhile (in_class c) xs)) xs"
      by (simp add: Suc_diff_le)
    then show ?thesis using Cons True
      by (simp add: run_star_close take_length_dropWhile)
  qed
qed

lemma starts_with_i_length: "starts_with_i kw s \<Longrightarrow> length kw \<le> length s"
  by (induction kw s rule: starts_with_i.induct) auto

lemma space_cases:
  "is_space x \<Longrightarrow> x = CHR 0x09 \<or> x = CHR 0x0A \<or> x = CHR 0x0B \<or> x = CHR 0x0C \<or>
     x = CHR 0x0D \<or> x = CHR 0x20 \<or> x = CHR 0xA0"
  by (simp add: is_space_def)

lemma space_not_d: "is_space x \<Longrightarrow> toLowerChar x \<noteq> toLowerChar (CHR ''d'')"
  by (drule space_cases) (auto simp: toLowerChar_def upper_chars_def lower_chars_def)

lemma space_not_p: "is_space x \<Longrightarrow> toLowerChar x \<noteq> toLowerChar (CHR ''p'')"
  by (drule space_cases) (auto simp: toLowerChar_def upper_chars_def lower_chars_def)

lemma kind_token_no_space:
  "in_class Space x \<Longrightarrow> run [R (Seq kind_re (Grp (Plus NonSpace)))] (x # xs) caps = None"
  by (simp add: kind_re_def space_not_d space_not_p)

lemma run_kind_token:
  "run [R (Seq kind_re (Grp (Plus NonSpace)))] t [] =
     (if starts_with_i ''doi:'' t \<and> takeWhile non_space (drop 4 t) \<noteq> []
      then Some [take 4 t, takeWhile non_space (drop 4 t)]
      else if starts_with_i ''pmid:'' t \<and> takeWhile non_space (drop 5 t) \<noteq> []
      then Some [take 5 t, takeWhile non_space (drop 5 t)]
      else None)"
proof -
  have ns: "in_class NonSpace = non_space" by (auto simp: non_space_def)
  have br: "run [R (lit_i kw), Close t, R (Grp (Plus NonSpace))] t [] =
      (if starts_with_i kw t \<and> takeWhile non_space (drop (length kw) t) \<noteq> []
       then Some [take (length kw) t, takeWhile non_space (drop (length kw) t)] else None)" for kw
  proof (cases "starts_with_i kw t")
    case False
    then show ?thesis by (simp add: run_lit_i)
  next
    case True
    then have "length kw \<le> length t" by (rule starts_with_i_length)
    then have "length t - (length t - length kw) = length kw" by simp
    then show ?thesis using True
      by (simp add: run_lit_i run_plus_close ns)
  qed
  have l4: "length ''doi:'' = 4" and l5: "length ''pmid:'' = 5" by simp_all
  have d: "run [R (lit_i ''doi:''), Close t, R (Grp (Plus NonSpace))] t [] =
      (if starts_with_i ''doi:'' t \<and> takeWhile non_space (drop 4 t) \<noteq> []
       then Some [take 4 t, takeWhile non_space (drop 4 t)] else None)"
    using br[of "''doi:''"] unfolding l4 .
  have p: "run [R (lit_i ''pmid:''), Close t, R (Grp (Plus NonSpace))] t [] =
      (if starts_with_i ''pmid:'' t \<and> takeWhile non_space (drop 5 t) \<noteq> []
       then Some [take 5 t, takeWhile non_space (drop 5 t)] else None)"
    using br[of "''pmid:''"] unfolding l5 .
  have "run [R (Seq kind_re (Grp (Plus NonSpace)))] t [] =
     (case run [R (lit_i ''doi:''), Close t, R (Grp (Plus NonSpace))] t [] of
        Some r \<Rightarrow> Some r
      | None \<Rightarrow> run [R (lit_i ''pmid:''), Close t, R (Grp (Plus NonSpace))] t [])"
    by (simp add: kind_re_def del: lit_i.simps)
  then show ?thesis unfolding d p by (simp del: lit_i.simps run.simps)
qed

lemma approve_re_command: "approve_re = command_re ''/approve''"
  by (simp only: approve_re_def command_re_def kind_re_def)

lemma reject_re_command: "reject_re = command_re ''/reject''"
  by (simp only: reject_re_def command_re_def kind_re_def)

lemma run_command_re:
  "run [R (command_re kw)] s [] =
     (if starts_with_i kw s
      then (if takeWhile is_space (drop (length kw) s) = [] then None
            else run [R (Seq kind_re (Grp (Plus NonSpace)))]
                   (dropWhile is_space (drop (length kw) s)) [])
      else None)"
proof -
  have sp: "in_class Space = is_space" by auto
  have "run [R (Seq (Plus Space) (Seq kind_re (Grp (Plus NonSpace))))] r [] =
      (if takeWhile is_space r = [] then None
       else run [R (Seq kind_re (Grp (Plus NonSpace)))] (dropWhile is_space r) [])" for r
    using run_plus_skip[of Space "[R (Seq kind_re (Grp (Plus NonSpace)))]" r "[]",
        OF kind_token_no_space]
    by (simp only: run.simps(6) sp)
  then show ?thesis
    by (simp only: command_re_def run_seq_lit_i)
qed

lemma lower_in_table:
  "map_of (zip upper_chars lower_chars) c = Some l \<Longrightarrow> l \<in> set lower_chars"
  by (meson map_of_SomeD set_zip_rightD)

lemma colon_not_lower: "CHR '':'' \<notin> set lower_chars"
  by (simp add: lower_chars_def)

lemma toLowerChar_colon: "toLowerChar c = CHR '':'' \<longleftrightarrow> c = CHR '':''"
proof
  assume a: "toLowerChar c = CHR '':''"
  show "c = CHR '':''"
  proof (cases "map_of (zip upper_chars lower_chars) c")
    case None
    then show ?thesis using a by (simp add: toLowerChar_def)
  next
    case (Some l)
    then have "l \<in> set lower_chars" by (rule lower_in_table)
    moreover have "l = CHR '':''" using a Some by (simp add: toLowerChar_def)
    ultimately show ?thesis using colon_not_lower by simp
  qed
next
  assume "c = CHR '':''"
  then show "toLowerChar c = CHR '':''"
    by (simp add: toLowerChar_def upper_chars_def lower_chars_def)
qed

lemma lower_letters:
  "toLowerChar (CHR ''d'') = CHR ''d''" "toLowerChar (CHR ''o'') = CHR ''o''"
  "toLowerChar (CHR ''i'') = CHR ''i''" "toLowerChar (CHR ''p'') = CHR ''p''"
  "toLowerChar (CHR ''m'') = CHR ''m''" "toLowerChar (CHR '':'') = CHR '':''"
  by (simp_all add: toLowerChar_def upper_chars_def lower_chars_def)

lemma starts_with_i_Cons:
  "starts_with_i (p # ps) s \<Longrightarrow>
     \<exists>c cs. s = c # cs \<and> toLowerChar c = toLowerChar p \<and> starts_with_i ps cs"
  by (cases s) auto

lemma lower_eq_not_colon:
  assumes "toLowerChar c = toLowerChar p" and "toLowerChar p \<noteq> CHR '':''"
  shows "c \<noteq> CHR '':''"
proof
  assume "c = CHR '':''"
  then have "toLowerChar c = CHR '':''" by (simp only: toLowerChar_colon)
  then show False using assms by simp
qed

lemma doi_kind:
  assumes "starts_with_i ''doi:'' t"
  shows "take 4 t = take 3 t @ '':'' \<and> CHR '':'' \<notin> set (take 3 t)"
proof -
  from starts_with_i_Cons[OF assms] obtain c1 r1 where 1: "t = c1 # r1"
    "toLowerChar c1 = toLowerChar (CHR ''d'')" "starts_with_i ''oi:'' r1"
    by (elim exE conjE) (rule that; assumption)
  from starts_with_i_Cons[OF 1(3)] obtain c2 r2 where 2: "r1 = c2 # r2"
    "toLowerChar c2 = toLowerChar (CHR ''o'')" "starts_with_i ''i:'' r2"
    by (elim exE conjE) (rule that; assumption)
  from starts_with_i_Cons[OF 2(3)] obtain c3 r3 where 3: "r2 = c3 # r3"
    "toLowerChar c3 = toLowerChar (CHR ''i'')" "starts_with_i '':'' r3"
    by (elim exE conjE) (rule that; assumption)
  from starts_with_i_Cons[OF 3(3)] obtain c4 r4 where 4: "r3 = c4 # r4"
    "toLowerChar c4 = toLowerChar (CHR '':'')" "starts_with_i [] r4"
    by (elim exE conjE) (rule that; assumption)
  have c4: "c4 = CHR '':''" using 4(2) by (simp only: lower_letters toLowerChar_colon)
  have c1: "c1 \<noteq> CHR '':''"
    using 1(2) by (rule lower_eq_not_colon) (simp add: lower_letters)
  have c2: "c2 \<noteq> CHR '':''"
    using 2(2) by (rule lower_eq_not_colon) (simp add: lower_letters)
  have c3: "c3 \<noteq> CHR '':''"
    using 3(2) by (rule lower_eq_not_colon) (simp add: lower_letters)
  have t: "t = c1 # c2 # c3 # c4 # r4" by (simp only: 1(1) 2(1) 3(1) 4(1))
  show ?thesis unfolding t using c1 c2 c3 c4 by simp
qed

lemma pmid_kind:
  assumes "starts_with_i ''pmid:'' t"
  shows "take 5 t = take 4 t @ '':'' \<and> CHR '':'' \<notin> set (take 4 t)"
proof -
  from starts_with_i_Cons[OF assms] obtain c1 r1 where 1: "t = c1 # r1"
    "toLowerChar c1 = toLowerChar (CHR ''p'')" "starts_with_i ''mid:'' r1"
    by (elim exE conjE) (rule that; assumption)
  from starts_with_i_Cons[OF 1(3)] obtain c2 r2 where 2: "r1 = c2 # r2"
    "toLowerChar c2 = toLowerChar (CHR ''m'')" "starts_with_i ''id:'' r2"
    by (elim exE conjE) (rule that; assumption)
  from starts_with_i_Cons[OF 2(3)] obtain c3 r3 where 3: "r2 = c3 # r3"
    "toLowerChar c3 = toLowerChar (CHR ''i'')" "starts_with_i ''d:'' r3"
    by (elim exE conjE) (rule that; assumption)
  from starts_with_i_Cons[OF 3(3)] obtain c4 r4 where 4: "r3 = c4 # r4"
    "toLowerChar c4 = toLowerChar (CHR ''d'')" "starts_with_i '':'' r4"
    by (elim exE conjE) (rule that; assumption)
  from starts_with_i_Cons[OF 4(3)] obtain c5 r5 where 5: "r4 = c5 # r5"
    "toLowerChar c5 = toLowerChar (CHR '':'')" "starts_with_i [] r5"
    by (elim exE conjE) (rule that; assumption)
  have c5: "c5 = CHR '':''" using 5(2) by (simp only: lower_letters toLowerChar_colon)
  have c1: "c1 \<noteq> CHR '':''"
    using 1(2) by (rule lower_eq_not_colon) (simp add: lower_letters)
  have c2: "c2 \<noteq> CHR '':''"
    using 2(2) by (rule lower_eq_not_colon) (simp add: lower_letters)
  have c3: "c3 \<noteq> CHR '':''"
    using 3(2) by (rule lower_eq_not_colon) (simp add: lower_letters)
  have c4: "c4 \<noteq> CHR '':''"
    using 4(2) by (rule lower_eq_not_colon) (simp add: lower_letters)
  have t: "t = c1 # c2 # c3 # c4 # c5 # r5" by (simp only: 1(1) 2(1) 3(1) 4(1) 5(1))
  show ?thesis unfolding t using c1 c2 c3 c4 c5 by simp
qed

lemma run_command_at:
  "run [R (command_re kw)] s [] = map_option (\<lambda>(k, v). [k @ '':'', v]) (command_at kw s)"
  unfolding run_command_re run_kind_token command_at_def Let_def
  using doi_kind pmid_kind by auto

lemma command_at_no_colon: "command_at kw s = Some (k, v) \<Longrightarrow> CHR '':'' \<notin> set k"
  unfolding command_at_def Let_def
  using doi_kind pmid_kind by (auto split: if_splits)

lemma search_first_command:
  "search (command_re kw) s = map_option (\<lambda>(k, v). [k @ '':'', v]) (first_command kw s)"
  by (induction s) (auto simp: run_command_at simp del: run.simps split: option.splits)

lemma first_command_no_colon: "first_command kw s = Some (k, v) \<Longrightarrow> CHR '':'' \<notin> set k"
  by (induction s) (auto dest: command_at_no_colon split: option.splits)

lemma remove_first_last: "c \<notin> set k \<Longrightarrow> remove_first c (k @ [c]) = k"
  by (simp add: remove_first_def takeWhile_append dropWhile_append)

text \<open>
  C4 (as amended). For every comment, \<open>parseCommand\<close> gives the decision of the first
  approve command of the comment, in any letter case, wherever it stands; when the
  comment has no approve command it gives the decision of the first reject command; it
  gives nothing when the comment has neither. The identifier type keeps the letter case
  of the comment, the identifier value is the token.
\<close>

theorem parseCommand_refines_priority:
  "parseCommand comment = parseCommand_priority comment"
proof -
  have d: "(case map_option (\<lambda>(k, v). [k @ '':'', v]) (first_command kw comment) of
          Some g \<Rightarrow> Some \<lparr>action = a, idType = remove_first (CHR '':'') (g ! 0), idValue = g ! 1\<rparr>
        | None \<Rightarrow> z) =
        (case first_command kw comment of
          Some (k, v) \<Rightarrow> Some \<lparr>action = a, idType = k, idValue = v\<rparr>
        | None \<Rightarrow> z)" for kw a z
    using first_command_no_colon[of kw comment]
    by (auto simp: remove_first_last split: option.splits)
  show ?thesis
    unfolding parseCommand_def parseCommand_priority_def Let_def
      approve_re_command reject_re_command search_first_command d ..
qed

text \<open>
  C4 as stated fails when a reject command stands before an approve command: the first
  command of the comment is the reject, and \<open>parseCommand\<close> gives the approve.
\<close>

theorem parseCommand_first_counterexample:
  "parseCommand ''/reject doi:10.1/x /approve doi:10.1/x'' =
     Some \<lparr>action = Approve, idType = ''doi'', idValue = ''10.1/x''\<rparr> \<and>
   parseCommand_first ''/reject doi:10.1/x /approve doi:10.1/x'' =
     Some \<lparr>action = Reject, idType = ''doi'', idValue = ''10.1/x''\<rparr>"
  by code_simp

section \<open>The rendered request\<close>

lemma join_lines_Cons: "ls \<noteq> [] \<Longrightarrow> join_lines (l # ls) = l @ NL @ join_lines ls"
  by (cases ls) auto

lemma join_lines_append:
  "xs \<noteq> [] \<Longrightarrow> ys \<noteq> [] \<Longrightarrow> join_lines (xs @ ys) = join_lines xs @ NL @ join_lines ys"
proof (induction xs rule: join_lines.induct)
  case 1 then show ?case by simp
next
  case (2 l) then show ?case by (simp add: join_lines_Cons)
next
  case (3 l v va) then show ?case by (simp add: join_lines_Cons)
qed

lemma hd_join_lines: "l \<noteq> [] \<Longrightarrow> hd (join_lines (l # ls)) = hd l"
  by (cases ls) auto

lemma last_join_lines: "l \<noteq> [] \<Longrightarrow> last (join_lines (ls @ [l])) = last l"
  by (cases "ls = []") (auto simp: join_lines_append NL_def)

lemma trim_wrapped:
  assumes "s \<noteq> []" and "\<not> is_space (hd s)" and "\<not> is_space (last s)"
  shows "trim (NL @ s @ NL) = s"
proof -
  obtain x xs where s: "s = x # xs" using assms(1) by (cases s) auto
  have sp: "is_space (CHR 0x0A)" by (simp add: is_space_def)
  have 1: "dropWhile is_space (NL @ s @ NL) = s @ NL"
    using assms(2) sp by (simp add: NL_def s)
  have r: "rev (s @ NL) = CHR 0x0A # rev s" by (simp add: NL_def)
  have d: "dropWhile is_space (rev s) = rev s"
    using assms(1,3) by (cases "rev s") (auto simp: last_rev[symmetric] simp del: last_rev)
  have "dropWhile is_space (rev (s @ NL)) = rev s" unfolding r using sp d by simp
  then show ?thesis by (simp add: trim_def 1)
qed

lemma trim_plain:
  assumes "s \<noteq> []" and "\<not> is_space (hd s)" and "\<not> is_space (last s)"
  shows "trim s = s"
proof -
  obtain x xs where s: "s = x # xs" using assms(1) by (cases s) auto
  have 1: "dropWhile is_space s = s" using assms(2) by (simp add: s)
  have "dropWhile is_space (rev s) = rev s"
    using assms(1,3) by (cases "rev s") (auto simp: last_rev[symmetric] simp del: last_rev)
  then show ?thesis by (simp add: trim_def 1)
qed


lemma generateIssueBody_lines:
  "generateIssueBody pub = join_lines (issue_lines (title pub)
      (if truthy (authors pub) then template_text (authors pub) else ''N/A'')
      (if journal pub \<noteq> [] then journal pub else ''N/A'')
      (case year pub of None \<Rightarrow> ''N/A'' | Some y \<Rightarrow> if y = 0 then ''N/A'' else show_int y)
      (if truthy (doi pub) then ''**DOI:** '' @ template_text (doi pub) else [])
      (if truthy (pmid pub) then ''**PMID:** '' @ template_text (pmid pub) else [])
      (case source pub of Orcid \<Rightarrow> ''orcid'' | Pubmed \<Rightarrow> ''pubmed'')
      (if truthy (doi pub) then ''doi:'' @ template_text (doi pub)
       else ''pmid:'' @ template_text (pmid pub)))"
  (is "_ = join_lines (issue_lines ?T ?A ?J ?Y ?DL ?PL ?S ?I)")
proof -
  let ?mid = "issue_lines ?T ?A ?J ?Y ?DL ?PL ?S ?I"
  have raw: "generateIssueBody pub = trim (join_lines ([] # ?mid @ [[]]))"
    by (simp add: generateIssueBody_def Let_def issue_lines_def)
  have ne: "?mid \<noteq> []" by (simp add: issue_lines_def)
  have j: "join_lines ([] # ?mid @ [[]]) = NL @ join_lines ?mid @ NL"
    using ne by (simp add: join_lines_Cons join_lines_append)
  have h: "hd (join_lines ?mid) = CHR ''#''"
    unfolding issue_lines_def by (subst hd_join_lines) simp_all
  have "?mid = butlast ?mid @ [''```'']" by (simp add: issue_lines_def)
  then have "last (join_lines ?mid) = last ''```''"
    using last_join_lines[of "''```''" "butlast ?mid"] by simp
  then have l: "last (join_lines ?mid) = CHR 0x60" by simp
  have n: "join_lines ?mid \<noteq> []" by (simp add: issue_lines_def)
  show ?thesis unfolding raw j
    by (rule trim_wrapped) (simp_all add: n h l is_space_def)
qed


lemma issue_lines_actions:
  "\<exists>pre. join_lines (issue_lines T A J Y DL PL S I) = pre @ actions_block I"
proof -
  let ?front = "take 19 (issue_lines T A J Y DL PL S I)"
  let ?blk = "[''To approve this publication and add it to the website, comment:'',
      ''```'',
      ''/approve '' @ I,
      ''```'',
      '''',
      ''To reject this publication (won'' @ [CHR 0x27] @ ''t be asked again), comment:'',
      ''```'',
      ''/reject '' @ I,
      ''```'']"
  have "issue_lines T A J Y DL PL S I = ?front @ ?blk"
    by (simp add: issue_lines_def)
  then have "join_lines (issue_lines T A J Y DL PL S I) = join_lines (?front @ ?blk)"
    by (rule arg_cong)
  also have "\<dots> = join_lines ?front @ NL @ join_lines ?blk"
    by (rule join_lines_append) (simp_all add: issue_lines_def)
  also have "\<dots> = (join_lines ?front @ NL) @ actions_block I"
    by (simp only: actions_block_def append_assoc)
  finally show ?thesis by (rule exI)
qed

lemma endsWith_append: "endsWith (pre @ s) s"
  by (simp add: endsWith_def)

text \<open>
  C6 (as amended). For a record with neither a doi nor a pmid (each \<open>null\<close> or empty)
  the rendered body ends with the two command templates on \<open>pmid:\<close>; the value after
  \<open>pmid:\<close> is the text \<open>null\<close> when the pmid is \<open>null\<close>, and empty only when the
  pmid is the empty string.
\<close>

theorem no_identifier_command:
  assumes "\<not> truthy (doi pub)" and "\<not> truthy (pmid pub)"
  shows "endsWith (generateIssueBody pub)
           (actions_block (case pmid pub of None \<Rightarrow> ''pmid:null'' | Some e \<Rightarrow> ''pmid:''))"
proof -
  let ?I = "if truthy (doi pub) then ''doi:'' @ template_text (doi pub)
       else ''pmid:'' @ template_text (pmid pub)"
  have i: "?I = (case pmid pub of None \<Rightarrow> ''pmid:null'' | Some e \<Rightarrow> ''pmid:'')"
    using assms by (cases "pmid pub") auto
  obtain pre where "generateIssueBody pub = pre @ actions_block ?I"
    unfolding generateIssueBody_lines using issue_lines_actions by blast
  then have "generateIssueBody pub =
      pre @ actions_block (case pmid pub of None \<Rightarrow> ''pmid:null'' | Some e \<Rightarrow> ''pmid:'')"
    by (simp only: i)
  then show ?thesis by (simp only: endsWith_append)
qed

theorem no_identifier_command_witness:
  "endsWith (generateIssueBody (no_ids\<lparr>pmid := Some []\<rparr>)) (actions_block ''pmid:'')"
  using no_identifier_command[of "no_ids\<lparr>pmid := Some []\<rparr>"]
  by (simp add: no_ids_def)

text \<open>
  C6 as stated fails for the record ORCID gives for a work without identifiers, whose
  doi and pmid are \<open>null\<close>: the templates read \<open>/approve pmid:null\<close> and
  \<open>/reject pmid:null\<close>, not an empty value.
\<close>

theorem no_identifier_command_counterexample:
  "doi no_ids = None \<and> pmid no_ids = None \<and>
   \<not> endsWith (generateIssueBody no_ids) (actions_block ''pmid:'') \<and>
   endsWith (generateIssueBody no_ids) (actions_block ''pmid:null'')"
  by code_simp

section \<open>Rendering a request and parsing it back\<close>

lemma no_double_star_Cons: "a \<noteq> CHR ''*'' \<Longrightarrow> no_double_star (a # s) = no_double_star s"
  by (cases s) auto

lemma run_double_star:
  "\<not> (x = CHR ''*'' \<and> y = CHR ''*'') \<Longrightarrow>
   run [R (Seq (Seq (Cls (Lit (CHR ''*''))) (Seq (Cls (Lit (CHR ''*''))) a)) b)] (x # y # s) caps
     = None"
  by auto

lemma search_skip_text:
  "no_double_star X \<Longrightarrow> c \<noteq> CHR ''*'' \<Longrightarrow>
   search (Seq (Seq (Cls (Lit (CHR ''*''))) (Seq (Cls (Lit (CHR ''*''))) a)) b) (X @ c # s) =
   search (Seq (Seq (Cls (Lit (CHR ''*''))) (Seq (Cls (Lit (CHR ''*''))) a)) b) (c # s)"
proof (induction X rule: no_double_star.induct)
  case 1
  then show ?case by simp
next
  case (2 x)
  then show ?case by (simp add: run_double_star del: run.simps)
next
  case (3 x y r)
  then show ?case by (simp add: run_double_star del: run.simps)
qed

lemma field_capture:
  assumes "X \<noteq> []" and "\<not> is_space (hd X)" and "list_all (in_class c) X"
    and "\<not> in_class c r"
  shows "run [R (Star Space), R (Grp (Plus c))] (X @ r # rest) caps = Some (caps @ [X])"
proof -
  obtain x xs where X: "X = x # xs" using assms(1) by (cases X) auto
  have tw: "takeWhile (in_class c) (X @ r # rest) = X"
    using assms(3,4) by (simp add: takeWhile_append2 list_all_iff)
  have "run [R (Star Space), R (Grp (Plus c))] (X @ r # rest) caps =
        run [R (Plus c), Close (X @ r # rest)] (X @ r # rest) caps"
    using assms(2) by (simp add: X)
  also have "\<dots> = Some (caps @ [X])"
    using assms(1) by (simp only: run_plus_close tw if_False)
  finally show ?thesis .
qed

lemma field_reject:
  assumes "X \<noteq> []" and "\<not> is_space (hd X)" and "\<not> in_class c (hd X)"
  shows "run [R (Star Space), R (Grp (Plus c))] (X @ rest) caps = None"
proof -
  obtain x xs where X: "X = x # xs" using assms(1) by (cases X) auto
  show ?thesis using assms(2,3) by (simp add: X)
qed

lemma digit_chars: "\<forall>k \<in> {..<10}. is_digit (digit_char k) \<and> digit_val (digit_char k) = k"
  by code_simp

lemma digit_char_mod: "digit_char n = digit_char (n mod 10)"
  by (simp add: digit_char_def)

lemma is_digit_digit_char: "is_digit (digit_char n)"
  using digit_chars digit_char_mod[of n] by (metis lessThan_iff mod_less_divisor zero_less_numeral)

lemma digit_val_digit_char: "digit_val (digit_char n) = n mod 10"
  using digit_chars digit_char_mod[of n] by (metis lessThan_iff mod_less_divisor zero_less_numeral)

lemma show_nat_digits: "list_all is_digit (show_nat n)"
  by (induction n rule: show_nat.induct) (subst show_nat.simps, simp add: is_digit_digit_char)

lemma show_nat_nonempty: "show_nat n \<noteq> []"
  by (subst show_nat.simps) simp

lemma show_nat_value: "foldl (\<lambda>acc c. acc * 10 + digit_val c) 0 (show_nat n) = n"
  by (induction n rule: show_nat.induct)
     (subst show_nat.simps, simp add: digit_val_digit_char)

lemma parseInt_show_nat: "parseInt (show_nat n) = Some (int n)"
proof -
  have tw: "takeWhile is_digit (show_nat n) = show_nat n"
    using show_nat_digits[of n] by (simp add: list_all_iff takeWhile_eq_all_conv)
  show ?thesis unfolding parseInt_def Let_def tw
    by (simp add: show_nat_nonempty show_nat_value)
qed

lemma digit_not_space: "is_digit c \<Longrightarrow> \<not> is_space c"
  by (auto simp: is_digit_def is_space_def)

lemma digit_not_star: "is_digit c \<Longrightarrow> c \<noteq> CHR ''*''"
  by (auto simp: is_digit_def)

lemma digits_no_double_star: "list_all is_digit s \<Longrightarrow> no_double_star s"
  by (induction s rule: no_double_star.induct) (auto dest: digit_not_star)

lemma space_facts: "is_space (CHR 0x20)" "is_space (CHR 0x0A)" "is_line_terminator (CHR 0x0A)"
  "\<not> is_digit (CHR 0x20)" "\<not> is_digit (CHR 0x0A)"
  by (simp_all add: is_space_def is_line_terminator_def is_digit_def)

lemma capture_dot:
  assumes "X \<noteq> []" and "\<not> is_space (hd X)" and "list_all (\<lambda>c. \<not> is_line_terminator c) X"
  shows "run [R (Star Space), R (Grp (Plus Dot))] (X @ CHR 0x0A # rest) caps = Some (caps @ [X])"
  using assms by (intro field_capture) (simp_all add: space_facts list_all_iff)

lemma capture_token:
  assumes "X \<noteq> []" and "list_all (\<lambda>c. \<not> is_space c) X"
  shows "run [R (Star Space), R (Grp (Plus NonSpace))] (X @ CHR 0x0A # rest) caps =
    Some (caps @ [X])"
proof -
  have "\<not> is_space (hd X)" using assms by (cases X) auto
  then show ?thesis using assms
    by (intro field_capture) (simp_all add: space_facts list_all_iff)
qed

lemma capture_digits:
  assumes "X \<noteq> []" and "list_all is_digit X"
  shows "run [R (Star Space), R (Grp (Plus Digit))] (X @ CHR 0x0A # rest) caps =
    Some (caps @ [X])"
proof -
  have "\<not> is_space (hd X)" using assms by (cases X) (auto dest: digit_not_space)
  then show ?thesis using assms
    by (intro field_capture) (simp_all add: space_facts list_all_iff)
qed

lemma reject_digits:
  assumes "X \<noteq> []" and "\<not> is_space (hd X)" and "\<not> is_digit (hd X)"
  shows "run [R (Star Space), R (Grp (Plus Digit))] (X @ rest) caps = None"
  using assms by (intro field_reject) simp_all

lemma parse_title:
  assumes "T \<noteq> []" and "\<not> is_space (hd T)" and "list_all (\<lambda>c. \<not> is_line_terminator c) T"
  shows "search (text_field_re ''**Title:**'') (join_lines (issue_lines T A J Y DL PL S I)) =
    Some [T]"
  using assms
  by (simp add: issue_lines_def NL_def text_field_re_def space_facts capture_dot)

lemma parse_authors:
  assumes "no_double_star T"
    and "A \<noteq> []" and "\<not> is_space (hd A)" and "list_all (\<lambda>c. \<not> is_line_terminator c) A"
  shows "search (text_field_re ''**Authors:**'') (join_lines (issue_lines T A J Y DL PL S I)) =
    Some [A]"
  using assms
  by (simp add: issue_lines_def NL_def text_field_re_def space_facts capture_dot
      search_skip_text)

lemma parse_journal:
  assumes "no_double_star T" and "no_double_star A"
    and "J \<noteq> []" and "\<not> is_space (hd J)" and "list_all (\<lambda>c. \<not> is_line_terminator c) J"
  shows "search (text_field_re ''**Journal:**'') (join_lines (issue_lines T A J Y DL PL S I)) =
    Some [J]"
  using assms
  by (simp add: issue_lines_def NL_def text_field_re_def space_facts capture_dot
      search_skip_text)

lemma parse_year_digits:
  assumes "no_double_star T" and "no_double_star A" and "no_double_star J"
    and "Y \<noteq> []" and "list_all is_digit Y"
  shows "search year_re (join_lines (issue_lines T A J Y DL PL S I)) = Some [Y]"
  using assms
  by (simp add: issue_lines_def NL_def year_re_def space_facts capture_digits
      search_skip_text)

lemma parse_year_none:
  assumes "no_double_star T" and "no_double_star A" and "no_double_star J"
    and "Y \<noteq> []" and "\<not> is_space (hd Y)" and "\<not> is_digit (hd Y)" and "no_double_star Y"
    and "DL = [] \<or> (\<exists>d. DL = ''**DOI:** '' @ d \<and> no_double_star d)"
    and "PL = [] \<or> (\<exists>p. PL = ''**PMID:** '' @ p \<and> no_double_star p)"
    and "no_double_star S" and "no_double_star I"
  shows "search year_re (join_lines (issue_lines T A J Y DL PL S I)) = None"
  using assms
  by (elim disjE exE conjE)
     (simp_all add: issue_lines_def NL_def year_re_def space_facts reject_digits
      search_skip_text)

lemma parse_doi_some:
  assumes "no_double_star T" and "no_double_star A" and "no_double_star J"
    and "no_double_star Y"
    and "d \<noteq> []" and "list_all (\<lambda>c. \<not> is_space c) d"
  shows "search (token_field_re ''**DOI:**'')
           (join_lines (issue_lines T A J Y (''**DOI:** '' @ d) PL S I)) = Some [d]"
  using assms
  by (simp add: issue_lines_def NL_def token_field_re_def space_facts capture_token
      search_skip_text)

lemma parse_doi_none:
  assumes "no_double_star T" and "no_double_star A" and "no_double_star J"
    and "no_double_star Y"
    and "PL = [] \<or> (\<exists>p. PL = ''**PMID:** '' @ p \<and> no_double_star p)"
    and "no_double_star S" and "no_double_star I"
  shows "search (token_field_re ''**DOI:**'')
           (join_lines (issue_lines T A J Y [] PL S I)) = None"
  using assms
  by (elim disjE exE conjE)
     (simp_all add: issue_lines_def NL_def token_field_re_def space_facts search_skip_text)

lemma parse_pmid_some:
  assumes "no_double_star T" and "no_double_star A" and "no_double_star J"
    and "no_double_star Y"
    and "DL = [] \<or> (\<exists>d. DL = ''**DOI:** '' @ d \<and> no_double_star d)"
    and "p \<noteq> []" and "list_all (\<lambda>c. \<not> is_space c) p"
  shows "search (token_field_re ''**PMID:**'')
           (join_lines (issue_lines T A J Y DL (''**PMID:** '' @ p) S I)) = Some [p]"
  using assms
  by (elim disjE exE conjE)
     (simp_all add: issue_lines_def NL_def token_field_re_def space_facts capture_token
      search_skip_text)

lemma parse_pmid_none:
  assumes "no_double_star T" and "no_double_star A" and "no_double_star J"
    and "no_double_star Y"
    and "DL = [] \<or> (\<exists>d. DL = ''**DOI:** '' @ d \<and> no_double_star d)"
    and "no_double_star S" and "no_double_star I"
  shows "search (token_field_re ''**PMID:**'')
           (join_lines (issue_lines T A J Y DL [] S I)) = None"
  using assms
  by (elim disjE exE conjE)
     (simp_all add: issue_lines_def NL_def token_field_re_def space_facts search_skip_text)

lemma plain_NA: "plain_text ''N/A''"
  by (simp add: plain_text_def is_space_def is_line_terminator_def)

lemma token_trim: "token_text d \<Longrightarrow> trim d = d"
  unfolding token_text_def
  by (intro trim_plain) (auto simp: list_all_iff)

lemma plain_trim: "plain_text s \<Longrightarrow> trim s = s"
  unfolding plain_text_def by (intro trim_plain) auto

lemma rendered_year:
  "\<exists>Y. (case y of None \<Rightarrow> ''N/A'' | Some n \<Rightarrow> if n = 0 then ''N/A'' else show_int n) = Y \<and>
       no_double_star Y \<and> Y \<noteq> [] \<and>
       (case y of None \<Rightarrow> \<not> is_space (hd Y) \<and> \<not> is_digit (hd Y)
        | Some n \<Rightarrow> if 0 < n then list_all is_digit Y \<and> parseInt Y = Some n
                     else \<not> is_space (hd Y) \<and> \<not> is_digit (hd Y))"
proof (cases y)
  case None
  then show ?thesis by (simp add: is_space_def is_digit_def)
next
  case (Some n)
  consider "n = 0" | "0 < n" | "n < 0" by linarith
  then show ?thesis
  proof cases
    case 1
    then show ?thesis using Some by (simp add: is_space_def is_digit_def)
  next
    case 2
    then show ?thesis using Some
      by (simp add: show_int_def show_nat_digits digits_no_double_star show_nat_nonempty
          parseInt_show_nat)
  next
    case 3
    then show ?thesis using Some
      by (simp add: show_int_def no_double_star_Cons show_nat_digits digits_no_double_star
          is_space_def is_digit_def)
  qed
qed

text \<open>
  C1 (as amended). For every renderable record, parsing its rendered request gives the
  original title; the original authors and journal when they are present, and the text
  \<open>N/A\<close> when they are absent or empty; the original year when it is positive, and no
  year otherwise; the original doi and pmid when they are not empty, and none otherwise.
\<close>

theorem render_parse_roundtrip:
  assumes "renderable pub"
  shows "parseIssueBody (generateIssueBody pub) = reparsed pub"
proof -
  define T where "T = title pub"
  define A where "A = (if truthy (authors pub) then template_text (authors pub) else ''N/A'')"
  define J where "J = (if journal pub \<noteq> [] then journal pub else ''N/A'')"
  define Y where "Y = (case year pub of None \<Rightarrow> ''N/A''
                       | Some y \<Rightarrow> if y = 0 then ''N/A'' else show_int y)"
  define DL where "DL = (if truthy (doi pub) then ''**DOI:** '' @ template_text (doi pub) else [])"
  define PL where "PL = (if truthy (pmid pub) then ''**PMID:** '' @ template_text (pmid pub) else [])"
  define S where "S = (case source pub of Orcid \<Rightarrow> ''orcid'' | Pubmed \<Rightarrow> ''pubmed'')"
  define I where "I = (if truthy (doi pub) then ''doi:'' @ template_text (doi pub)
                       else ''pmid:'' @ template_text (pmid pub))"
  define B where "B = join_lines (issue_lines T A J Y DL PL S I)"
  have body: "generateIssueBody pub = B"
    unfolding B_def T_def A_def J_def Y_def DL_def PL_def S_def I_def
    by (rule generateIssueBody_lines)
  have pT: "plain_text T" using assms by (simp add: renderable_def T_def)
  have pA: "plain_text A" using assms
    by (cases "authors pub") (auto simp: renderable_def A_def plain_NA)
  have pJ: "plain_text J" using assms by (auto simp: renderable_def J_def plain_NA)
  obtain yr: "no_double_star Y" "Y \<noteq> []"
    "case year pub of None \<Rightarrow> \<not> is_space (hd Y) \<and> \<not> is_digit (hd Y)
        | Some n \<Rightarrow> if 0 < n then list_all is_digit Y \<and> parseInt Y = Some n
                     else \<not> is_space (hd Y) \<and> \<not> is_digit (hd Y)"
    using rendered_year[of "year pub"] unfolding Y_def by blast
  have tD: "truthy (doi pub) \<Longrightarrow> \<exists>d. doi pub = Some d \<and> token_text d"
    using assms by (cases "doi pub") (auto simp: renderable_def)
  have tP: "truthy (pmid pub) \<Longrightarrow> \<exists>p. pmid pub = Some p \<and> token_text p"
    using assms by (cases "pmid pub") (auto simp: renderable_def)
  have fDL: "DL = [] \<or> (\<exists>d. DL = ''**DOI:** '' @ d \<and> no_double_star d)"
    using tD by (auto simp: DL_def token_text_def)
  have fPL: "PL = [] \<or> (\<exists>p. PL = ''**PMID:** '' @ p \<and> no_double_star p)"
    using tP by (auto simp: PL_def token_text_def)
  have nS: "no_double_star S" by (cases "source pub") (simp_all add: S_def)
  have nI: "no_double_star I"
  proof (cases "truthy (doi pub)")
    case True
    then show ?thesis using tD by (auto simp: I_def token_text_def no_double_star_Cons)
  next
    case False
    show ?thesis
    proof (cases "truthy (pmid pub)")
      case True
      then show ?thesis using tP \<open>\<not> truthy (doi pub)\<close>
        by (auto simp: I_def token_text_def no_double_star_Cons)
    next
      case False
      then show ?thesis using \<open>\<not> truthy (doi pub)\<close>
        by (cases "pmid pub") (simp_all add: I_def)
    qed
  qed
  note nT = pT[unfolded plain_text_def] and nA = pA[unfolded plain_text_def]
    and nJ = pJ[unfolded plain_text_def]
  have t: "search (text_field_re ''**Title:**'') B = Some [T]"
    unfolding B_def using nT by (intro parse_title) simp_all
  have a: "search (text_field_re ''**Authors:**'') B = Some [A]"
    unfolding B_def using nT nA by (intro parse_authors) simp_all
  have j: "search (text_field_re ''**Journal:**'') B = Some [J]"
    unfolding B_def using nT nA nJ by (intro parse_journal) simp_all
  have y: "(case search year_re B of Some g \<Rightarrow> parseInt (g ! 0) | None \<Rightarrow> None) =
      (case year pub of None \<Rightarrow> None | Some y \<Rightarrow> if 0 < y then Some y else None)"
  proof (cases "\<exists>n. year pub = Some n \<and> 0 < n")
    case True
    then obtain n where n: "year pub = Some n" "0 < n" by blast
    then have "list_all is_digit Y" "parseInt Y = Some n" using yr(3) by simp_all
    moreover from this have "search year_re B = Some [Y]"
      unfolding B_def using nT nA nJ yr(2) by (intro parse_year_digits) simp_all
    ultimately show ?thesis using n by simp
  next
    case False
    then have "\<not> is_space (hd Y) \<and> \<not> is_digit (hd Y)"
      using yr(3) by (cases "year pub") (auto split: if_splits)
    then have "search year_re B = None"
      unfolding B_def using nT nA nJ yr(1,2) fDL fPL nS nI
      by (intro parse_year_none) simp_all
    then show ?thesis using False by (cases "year pub") auto
  qed
  have d: "(case search (token_field_re ''**DOI:**'') B of
             Some g \<Rightarrow> Some (trim (g ! 0)) | None \<Rightarrow> None) =
           (if truthy (doi pub) then doi pub else None)"
  proof (cases "truthy (doi pub)")
    case True
    then obtain dd where dd: "doi pub = Some dd" "token_text dd" using tD by blast
    then have "DL = ''**DOI:** '' @ dd" using True by (simp add: DL_def)
    then have "search (token_field_re ''**DOI:**'') B = Some [dd]"
      unfolding B_def using nT nA nJ yr(1) dd(2)[unfolded token_text_def]
      by (simp only:) (intro parse_doi_some, simp_all)
    then show ?thesis using True dd by (simp add: token_trim)
  next
    case False
    then have "DL = []" by (simp add: DL_def)
    then have "search (token_field_re ''**DOI:**'') B = None"
      unfolding B_def using nT nA nJ yr(1) fPL nS nI
      by (simp only:) (intro parse_doi_none, simp_all)
    then show ?thesis using False by simp
  qed
  have p: "(case search (token_field_re ''**PMID:**'') B of
             Some g \<Rightarrow> Some (trim (g ! 0)) | None \<Rightarrow> None) =
           (if truthy (pmid pub) then pmid pub else None)"
  proof (cases "truthy (pmid pub)")
    case True
    then obtain pp where pp: "pmid pub = Some pp" "token_text pp" using tP by blast
    then have "PL = ''**PMID:** '' @ pp" using True by (simp add: PL_def)
    then have "search (token_field_re ''**PMID:**'') B = Some [pp]"
      unfolding B_def using nT nA nJ yr(1) fDL pp(2)[unfolded token_text_def]
      by (simp only:) (intro parse_pmid_some, simp_all)
    then show ?thesis using True pp by (simp add: token_trim)
  next
    case False
    then have "PL = []" by (simp add: PL_def)
    then have "search (token_field_re ''**PMID:**'') B = None"
      unfolding B_def using nT nA nJ yr(1) fDL nS nI
      by (simp only:) (intro parse_pmid_none, simp_all)
    then show ?thesis using False by simp
  qed
  have tr: "trim T = T" "trim A = A" "trim J = J"
    using pT pA pJ by (simp_all add: plain_trim)
  show ?thesis
    unfolding body parseIssueBody_def Let_def t a j y d p reparsed_def
    by (simp add: tr, simp add: T_def A_def J_def)
qed

theorem render_parse_roundtrip_witness:
  "renderable pubmed_copy \<and>
   parseIssueBody (generateIssueBody pubmed_copy) =
     \<lparr>title = ''Genome editing in cyanobacteria.'', authors = Some ''Rubin BE'',
      journal = ''Science'', year = Some 2022, doi = Some ''10.7/z'',
      pmid = Some ''31415926''\<rparr>"
proof -
  have r: "renderable pubmed_copy" by code_simp
  from render_parse_roundtrip[OF r] r show ?thesis
    by (simp add: reparsed_def pubmed_copy_def)
qed

text \<open>
  C1 as stated fails for a record without authors, which is every ORCID record: the
  request shows \<open>N/A\<close>, and parsing gives the authors \<open>N/A\<close>, neither empty nor absent.
\<close>

theorem render_parse_roundtrip_counterexample:
  "authors orcid_copy = None \<and>
   authors (parseIssueBody (generateIssueBody orcid_copy)) = Some ''N/A'' \<and>
   parseIssueBody (generateIssueBody orcid_copy) \<noteq> absent_normalized orcid_copy"
  by code_simp

end
